theory Spec2Isabelle
  imports Complex_Main "HOL-Library.AList"
begin

section \<open>Alert manager (modules/alerts/alert-manager.js)\<close>

text \<open>
  A JavaScript number is an IEEE 754 double; a finite one is the real number it stands
  for.  Comparisons of doubles are comparisons of these reals.  An arithmetic operation
  yields the exact result rounded to the nearest double (section on double precision
  below).  A timestamp (\<^verbatim>\<open>new Date().toISOString()\<close>) is the clock value in milliseconds.
  What the browser supplies during one call (the clock, \<^verbatim>\<open>crypto.randomUUID()\<close>,
  \<^verbatim>\<open>Number.prototype.toFixed(1)\<close>) is passed in as an environment record.  Rendering (DOM,
  sound, console) and the calls into the state store singleton leave the fields of the
  alert manager untouched and are not part of its state; the store is modelled in its own
  section.
\<close>

subsection \<open>Double precision\<close>

text \<open>
  \<open>binexp x\<close> is the binary exponent of a positive real: \<open>2 ^ binexp x \<le> x < 2 ^ (binexp x + 1)\<close>.
\<close>

function binexp :: "real \<Rightarrow> int" where
  "binexp x =
    (if x \<le> 0 then 0
     else if 2 \<le> x then binexp (x / 2) + 1
     else if x < 1 then binexp (x * 2) - 1
     else 0)"
  by pat_completeness auto
termination
proof (relation "measure (\<lambda>x. nat \<bar>\<lfloor>log 2 x\<rfloor>\<bar>)")
  show "wf (measure (\<lambda>x. nat \<bar>\<lfloor>log 2 x\<rfloor>\<bar>))" by simp
next
  fix x :: real
  assume "\<not> x \<le> 0" and "2 \<le> x"
  then have "log 2 (x / 2) = log 2 x - 1" and "1 \<le> log 2 x"
    by (simp_all add: log_divide le_log_iff)
  then have "\<lfloor>log 2 (x / 2)\<rfloor> = \<lfloor>log 2 x\<rfloor> - 1" and "1 \<le> \<lfloor>log 2 x\<rfloor>"
    by (simp_all add: le_floor_iff)
  then have "nat \<bar>\<lfloor>log 2 (x / 2)\<rfloor>\<bar> < nat \<bar>\<lfloor>log 2 x\<rfloor>\<bar>" by linarith
  then show "(x / 2, x) \<in> measure (\<lambda>x. nat \<bar>\<lfloor>log 2 x\<rfloor>\<bar>)" by simp
next
  fix x :: real
  assume "\<not> x \<le> 0" and "\<not> 2 \<le> x" and "x < 1"
  then have "log 2 (x * 2) = log 2 x + 1" and "log 2 x < 0"
    by (simp_all add: log_mult)
  then have "\<lfloor>log 2 (x * 2)\<rfloor> = \<lfloor>log 2 x\<rfloor> + 1" and "\<lfloor>log 2 x\<rfloor> < 0"
    by (simp_all add: floor_less_iff)
  then have "nat \<bar>\<lfloor>log 2 (x * 2)\<rfloor>\<bar> < nat \<bar>\<lfloor>log 2 x\<rfloor>\<bar>" by linarith
  then show "(x * 2, x) \<in> measure (\<lambda>x. nat \<bar>\<lfloor>log 2 x\<rfloor>\<bar>)" by simp
qed

declare binexp.simps [simp del]

text \<open>
  The spacing of the doubles around \<open>x\<close>: 52 fraction bits below the leading bit, and
  the fixed spacing \<open>2 ^ - 1074\<close> of the subnormal range below \<open>2 ^ - 1022\<close>.
\<close>

definition ulp :: "real \<Rightarrow> real" where
  "ulp x = 2 powi (max (binexp \<bar>x\<bar>) (- 1022) - 52)"

text \<open>The nearest integer; of two equally near ones the even one.\<close>

definition roundTiesToEven :: "real \<Rightarrow> int" where
  "roundTiesToEven y =
    (let f = \<lfloor>y\<rfloor>; r = y - of_int f
     in if r < 1 / 2 then f else if 1 / 2 < r then f + 1 else if even f then f else f + 1)"

text \<open>
  The double nearest to a real (round to nearest, ties to even).  It is the value of a
  numeric literal, and the result of an operation whose exact result it is given, as long
  as that does not overflow.
\<close>

definition toDouble :: "real \<Rightarrow> real" where
  "toDouble x = (if x = 0 then 0 else of_int (roundTiesToEven (x / ulp x)) * ulp x)"

text \<open>
  An exact result this large rounds to \<^verbatim>\<open>Infinity\<close> (the largest finite double is
  \<open>2 ^ 1024 - 2 ^ 971\<close>).
\<close>

definition overflows :: "real \<Rightarrow> bool" where
  "overflows x \<longleftrightarrow> 2 ^ 1024 - 2 ^ 970 \<le> \<bar>x\<bar>"

datatype severity = Normal | Warning | Critical

text \<open>One entry of \<^verbatim>\<open>motorConfig.variables\<close>; the two critical thresholds may be undefined.\<close>

record variable =
  var_key :: string
  var_name :: string
  var_unit :: string
  normalMin :: real
  normalMax :: real
  critical :: "real option"
  criticalLow :: "real option"

text \<open>The object literal that \<^verbatim>\<open>checkThreshold\<close> hands to \<^verbatim>\<open>handleAlert\<close>.\<close>

record alert_data =
  alert_key :: string
  motor :: string
  motorId :: string
  variable_name :: string
  variableKey :: string
  alert_value :: string
  alert_unit :: string
  severity :: severity
  message :: string
  timestamp :: int

text \<open>
  A stored alert: the data above plus \<^verbatim>\<open>id\<close>, \<^verbatim>\<open>updateCount\<close>, \<^verbatim>\<open>resolved\<close> and
  \<^verbatim>\<open>resolvedAt\<close>.  The demo records have no \<^verbatim>\<open>updateCount\<close>, and \<^verbatim>\<open>resolvedAt\<close> is absent
  until a record is resolved, so both are optional.
\<close>

record alert = alert_data +
  alert_id :: string
  updateCount :: "nat option"
  resolved :: bool
  resolvedAt :: "int option"

text \<open>
  The fields of the \<^verbatim>\<open>AlertManager\<close> object.  The two \<^verbatim>\<open>Map\<close>s are association lists in
  insertion order: \<^verbatim>\<open>Map.set\<close> on a present key replaces the value in place and on a new
  key appends, which is \<^const>\<open>AList.update\<close>; \<^verbatim>\<open>Map.delete\<close> is \<^const>\<open>AList.delete\<close>;
  \<^verbatim>\<open>Map.get\<close> is \<^const>\<open>map_of\<close>.  The history array holds copies
  (\<^verbatim>\<open>{ ...newAlert }\<close>), so a later change of an active alert does not reach its history
  record, and the other way round.
\<close>

record am_state =
  activeAlerts :: "(string \<times> alert) list"
  alertHistory :: "alert list"
  maxHistory :: nat
  lastCheckedValues :: "(string \<times> real) list"

record env =
  now :: int
  uuid :: string
  toFixed1 :: "real \<Rightarrow> string"

text \<open>Non-ASCII letters of the source's string literals, as their UTF-8 bytes.\<close>

definition I_acute :: string where
  "I_acute = [CHR 0xC3, CHR 0x8D]"

definition o_acute :: string where
  "o_acute = [CHR 0xC3, CHR 0xB3]"

definition degree_sign :: string where
  "degree_sign = [CHR 0xC2, CHR 0xB0]"

subsection \<open>Construction\<close>

definition demoAlerts :: "int \<Rightarrow> alert list" where
  "demoAlerts t =
    [\<lparr>alert_key = ''motor1-temperature-demo'', motor = ''Motor Principal'',
      motorId = ''motor1'', variable_name = ''Temperatura'', variableKey = ''temperature'',
      alert_value = ''105.5'', alert_unit = degree_sign @ ''C'', severity = Critical,
      message = ''Motor Principal: Temperatura CR'' @ I_acute @ ''TICA (105.5''
        @ degree_sign @ ''C)'',
      timestamp = t - 3600000, alert_id = ''demo-1'', updateCount = None,
      resolved = True, resolvedAt = Some (t - 3500000)\<rparr>,
     \<lparr>alert_key = ''motor2-oil_pressure-demo'', motor = ''Motor Secundario'',
      motorId = ''motor2'', variable_name = ''Presi'' @ o_acute @ ''n de Aceite'',
      variableKey = ''oil_pressure'', alert_value = ''28.3'', alert_unit = ''Psi'',
      severity = Warning,
      message = ''Motor Secundario: Presi'' @ o_acute @ ''n de Aceite BAJA (28.3Psi)'',
      timestamp = t - 7200000, alert_id = ''demo-2'', updateCount = None,
      resolved = False, resolvedAt = None\<rparr>]"

definition loadDemoHistory :: "int \<Rightarrow> am_state \<Rightarrow> am_state" where
  "loadDemoHistory t s = s\<lparr>alertHistory := alertHistory s @ demoAlerts t\<rparr>"

definition initialize :: "int \<Rightarrow> am_state \<Rightarrow> am_state" where
  "initialize t s = (if length (alertHistory s) = 0 then loadDemoHistory t s else s)"

definition constructor :: "int \<Rightarrow> am_state" where
  "constructor t =
    initialize t
      \<lparr>activeAlerts = [], alertHistory = [], maxHistory = 100, lastCheckedValues = []\<rparr>"

subsection \<open>Upsert and resolution\<close>

text \<open>
  The object \<^verbatim>\<open>{ id: crypto.randomUUID(), ...alertData, updateCount: 1, resolved: false }\<close>.
\<close>

definition newAlert :: "string \<Rightarrow> alert_data \<Rightarrow> alert" where
  "newAlert newId alertData =
    \<lparr>alert_key = alert_key alertData, motor = motor alertData,
     motorId = motorId alertData, variable_name = variable_name alertData,
     variableKey = variableKey alertData, alert_value = alert_value alertData,
     alert_unit = alert_unit alertData, severity = severity alertData,
     message = message alertData, timestamp = timestamp alertData,
     alert_id = newId, updateCount = Some 1, resolved = False, resolvedAt = None\<rparr>"

definition handleAlert :: "string \<Rightarrow> alert_data \<Rightarrow> am_state \<Rightarrow> am_state" where
  "handleAlert newId alertData s =
    (case map_of (activeAlerts s) (alert_key alertData) of
       Some existingAlert \<Rightarrow>
         s\<lparr>activeAlerts :=
             AList.update (alert_key alertData)
               (existingAlert\<lparr>alert_value := alert_value alertData,
                  severity := severity alertData,
                  message := message alertData,
                  timestamp := timestamp alertData,
                  updateCount :=
                    Some ((case updateCount existingAlert of None \<Rightarrow> 0 | Some n \<Rightarrow> n) + 1)\<rparr>)
               (activeAlerts s)\<rparr>
     | None \<Rightarrow>
         (let unshifted = newAlert newId alertData # alertHistory s
          in s\<lparr>activeAlerts :=
                 AList.update (alert_key alertData) (newAlert newId alertData) (activeAlerts s),
               alertHistory :=
                 (if length unshifted > maxHistory s then butlast unshifted
                  else unshifted)\<rparr>))"

text \<open>
  \<^verbatim>\<open>alertHistory.find(a => a.key === alertKey)\<close> followed by the two assignments to the
  record found: the first record of the history with that key is marked, or none.
\<close>

fun markResolved :: "string \<Rightarrow> int \<Rightarrow> alert list \<Rightarrow> alert list" where
  "markResolved k t [] = []"
| "markResolved k t (a # rest) =
    (if alert_key a = k then a\<lparr>resolved := True, resolvedAt := Some t\<rparr> # rest
     else a # markResolved k t rest)"

definition resolveAlertByKey :: "int \<Rightarrow> string \<Rightarrow> am_state \<Rightarrow> am_state" where
  "resolveAlertByKey t alertKey s =
    (case map_of (activeAlerts s) alertKey of
       None \<Rightarrow> s
     | Some a \<Rightarrow>
         s\<lparr>activeAlerts := AList.delete alertKey (activeAlerts s),
           alertHistory := markResolved alertKey t (alertHistory s)\<rparr>)"

text \<open>The second argument \<^verbatim>\<open>resolvedBy\<close> only selects a log line.\<close>

definition resolveAlert :: "int \<Rightarrow> string \<Rightarrow> string \<Rightarrow> am_state \<Rightarrow> am_state" where
  "resolveAlert t alertId resolvedBy s =
    (case find (\<lambda>a. alert_id a = alertId) (map snd (activeAlerts s)) of
       None \<Rightarrow> s
     | Some a \<Rightarrow> resolveAlertByKey t (alert_key a) s)"

definition clearResolvedAlerts :: "am_state \<Rightarrow> am_state" where
  "clearResolvedAlerts s = s\<lparr>alertHistory := filter (\<lambda>a. \<not> resolved a) (alertHistory s)\<rparr>"

definition destroy :: "am_state \<Rightarrow> am_state" where
  "destroy s = s\<lparr>activeAlerts := [], alertHistory := [], lastCheckedValues := []\<rparr>"

subsection \<open>Threshold check\<close>

definition motorNameOf :: "string \<Rightarrow> string" where
  "motorNameOf mid = (if mid = ''motor1'' then ''Motor Principal'' else ''Motor Secundario'')"

definition alertKeyOf :: "string \<Rightarrow> variable \<Rightarrow> string" where
  "alertKeyOf mid v = mid @ ''-'' @ var_key v"

text \<open>
  The guard of the early return:
  \<^verbatim>\<open>lastValue !== undefined && Math.abs(value - lastValue) < (variable.normalMax * 0.02)\<close>.
  The difference and the product are rounded; \<^verbatim>\<open>0.02\<close> is the double nearest to 2/100.  A
  difference that overflows is \<^verbatim>\<open>Infinity\<close> or \<^verbatim>\<open>-Infinity\<close>, its absolute value is below
  nothing.  The product of a double with \<^verbatim>\<open>0.02\<close> cannot overflow.
\<close>

definition hysteresisSkips :: "real option \<Rightarrow> variable \<Rightarrow> real \<Rightarrow> bool" where
  "hysteresisSkips lastValue v x =
    (case lastValue of
       None \<Rightarrow> False
     | Some l \<Rightarrow>
         \<not> overflows (x - l) \<and>
         \<bar>toDouble (x - l)\<bar> < toDouble (normalMax v * toDouble (2 / 100)))"

text \<open>The chain of comparisons that sets \<^verbatim>\<open>severity\<close> and \<^verbatim>\<open>message\<close>.\<close>

definition evaluateThreshold ::
  "(real \<Rightarrow> string) \<Rightarrow> string \<Rightarrow> variable \<Rightarrow> real \<Rightarrow> severity \<times> string" where
  "evaluateThreshold fixed motorName v x =
    (if critical v \<noteq> None \<and> x \<ge> the (critical v) then
       (Critical,
        motorName @ '': '' @ var_name v @ '' CR'' @ I_acute @ ''TICA ('' @ fixed x
          @ var_unit v @ '')'')
     else if criticalLow v \<noteq> None \<and> x \<le> the (criticalLow v) then
       (Critical,
        motorName @ '': '' @ var_name v @ '' CR'' @ I_acute @ ''TICAMENTE BAJA ('' @ fixed x
          @ var_unit v @ '')'')
     else if x > normalMax v then
       (Warning, motorName @ '': '' @ var_name v @ '' ALTA ('' @ fixed x @ var_unit v @ '')'')
     else if x < normalMin v then
       (Warning, motorName @ '': '' @ var_name v @ '' BAJA ('' @ fixed x @ var_unit v @ '')'')
     else (Normal, []))"

text \<open>The object literal passed to \<^verbatim>\<open>handleAlert\<close> when the severity is not normal.\<close>

definition breachData :: "env \<Rightarrow> string \<Rightarrow> variable \<Rightarrow> real \<Rightarrow> alert_data" where
  "breachData e mid v x =
    (let motorName = motorNameOf mid;
         sm = evaluateThreshold (toFixed1 e) motorName v x
     in \<lparr>alert_key = alertKeyOf mid v, motor = motorName, motorId = mid,
         variable_name = var_name v, variableKey = var_key v,
         alert_value = toFixed1 e x, alert_unit = var_unit v,
         severity = fst sm, message = snd sm, timestamp = now e\<rparr>)"

definition checkThreshold :: "env \<Rightarrow> string \<Rightarrow> variable \<Rightarrow> real \<Rightarrow> am_state \<Rightarrow> am_state" where
  "checkThreshold e mid v x s =
    (let motorName = motorNameOf mid;
         alertKey = alertKeyOf mid v;
         lastValue = map_of (lastCheckedValues s) alertKey
     in if hysteresisSkips lastValue v x then s
        else
          (let s1 = s\<lparr>lastCheckedValues := AList.update alertKey x (lastCheckedValues s)\<rparr>;
               sm = evaluateThreshold (toFixed1 e) motorName v x
           in if fst sm \<noteq> Normal \<and> snd sm \<noteq> [] then
                handleAlert (uuid e) (breachData e mid v x) s1
              else if map_of (activeAlerts s1) alertKey \<noteq> None then
                resolveAlertByKey (now e) alertKey s1
              else s1))"

text \<open>
  The states the object can be in: built by the constructor and then changed only through
  its methods (\<^verbatim>\<open>checkMotorAlerts\<close> is a sequence of \<^verbatim>\<open>checkThreshold\<close> calls).
\<close>

inductive am_reachable :: "am_state \<Rightarrow> bool" where
  am_new: "am_reachable (constructor t)"
| am_check: "am_reachable s \<Longrightarrow> am_reachable (checkThreshold e mid v x s)"
| am_resolve: "am_reachable s \<Longrightarrow> am_reachable (resolveAlert t alertId resolvedBy s)"
| am_clear: "am_reachable s \<Longrightarrow> am_reachable (clearResolvedAlerts s)"
| am_destroy: "am_reachable s \<Longrightarrow> am_reachable (destroy s)"

subsection \<open>Notions used in the statements about the alert manager\<close>

text \<open>The severity of the active alert stored under a key, if there is one.\<close>

definition activeSeverity :: "am_state \<Rightarrow> string \<Rightarrow> severity option" where
  "activeSeverity s k = map_option severity (map_of (activeAlerts s) k)"

text \<open>The record that \<^verbatim>\<open>alertHistory.find(a => a.key === alertKey)\<close> returns.\<close>

definition firstWithKey :: "string \<Rightarrow> alert list \<Rightarrow> alert option" where
  "firstWithKey k h = find (\<lambda>a. alert_key a = k) h"

text \<open>
  Invariants of the reachable states: the keys of the active map are distinct and each
  active alert carries its map key and an update counter; the history respects its
  capacity; and the first history record with the key of an active alert, when the
  history still holds one, is the unresolved copy made when that alert was created.
\<close>

definition inv_keys :: "am_state \<Rightarrow> bool" where
  "inv_keys s \<longleftrightarrow>
     distinct (map fst (activeAlerts s)) \<and>
     (\<forall>k a. map_of (activeAlerts s) k = Some a \<longrightarrow> alert_key a = k \<and> updateCount a \<noteq> None)"

definition inv_hist :: "am_state \<Rightarrow> bool" where
  "inv_hist s \<longleftrightarrow> maxHistory s = 100 \<and> length (alertHistory s) \<le> 100"

definition inv_link :: "am_state \<Rightarrow> bool" where
  "inv_link s \<longleftrightarrow>
     (\<forall>k a h. map_of (activeAlerts s) k = Some a \<longrightarrow>
        firstWithKey k (alertHistory s) = Some h \<longrightarrow>
        alert_id h = alert_id a \<and> \<not> resolved h)"

definition am_inv :: "am_state \<Rightarrow> bool" where
  "am_inv s \<longleftrightarrow> inv_keys s \<and> inv_hist s \<and> inv_link s"

subsection \<open>A concrete run\<close>

text \<open>
  The configuration \<^verbatim>\<open>config.MOTORS\<close> is not among the sources.  The temperature variable
  below takes the thresholds of the specification's scenario (critical 105, normal maximum
  95); the oil pressure variable is a second variable of the same motor.  The run: the
  temperature of motor 1 goes critical, then its oil pressure drops below the normal band
  and recovers a hundred times while the temperature alert stays active.
\<close>

definition scenarioTemperature :: variable where
  "scenarioTemperature =
    \<lparr>var_key = ''temperature'', var_name = ''Temperatura'', var_unit = degree_sign @ ''C'',
     normalMin = 60, normalMax = 95, critical = Some 105, criticalLow = None\<rparr>"

definition scenarioOil :: variable where
  "scenarioOil =
    \<lparr>var_key = ''oil_pressure'', var_name = ''Presi'' @ o_acute @ ''n de Aceite'',
     var_unit = ''Psi'', normalMin = 30, normalMax = 65, critical = None,
     criticalLow = Some 5\<rparr>"

definition scenarioFixed :: "real \<Rightarrow> string" where
  "scenarioFixed x =
    (if x = 110 then ''110.0'' else if x = 106 then ''106.0'' else if x = 70 then ''70.0''
     else if x = 45 then ''45.0'' else if x = 10 then ''10.0''
     else if x = 3 / 2 then ''1.5'' else if x = toDouble (2 / 10) then ''0.2'' else ''0.0'')"

definition scenarioEnv :: env where
  "scenarioEnv = \<lparr>now = 1000, uuid = ''a'', toFixed1 = scenarioFixed\<rparr>"

definition flapEnv :: "nat \<Rightarrow> env" where
  "flapEnv i = \<lparr>now = 2000 + int i, uuid = replicate (Suc i) CHR ''b'', toFixed1 = scenarioFixed\<rparr>"

definition flap :: "nat \<Rightarrow> am_state \<Rightarrow> am_state" where
  "flap i s =
    checkThreshold (flapEnv i) ''motor1'' scenarioOil 45
      (checkThreshold (flapEnv i) ''motor1'' scenarioOil 10 s)"

primrec flaps :: "nat \<Rightarrow> am_state \<Rightarrow> am_state" where
  "flaps 0 s = s"
| "flaps (Suc n) s = flap n (flaps n s)"

definition alarmState :: am_state where
  "alarmState = checkThreshold scenarioEnv ''motor1'' scenarioTemperature 110 (constructor 0)"

definition evictedState :: am_state where
  "evictedState = flaps 100 alarmState"

text \<open>
  A second run: the first oil pressure reading of motor 1 is the number written \<^verbatim>\<open>0.2\<close>,
  the next one is \<^verbatim>\<open>1.5\<close>.
\<close>

definition lowOilState :: am_state where
  "lowOilState =
    checkThreshold scenarioEnv ''motor1'' scenarioOil (toDouble (2 / 10)) (constructor 0)"


section \<open>State store (state/store.js)\<close>

text \<open>
  The part of the singleton store that the claims reach.  A motor object is a JavaScript
  object with whatever fields the updates bring, so it is a map from field names to values
  and the object spread \<^verbatim>\<open>{ ...a, ...b }\<close> is \<^term>\<open>a ++ b\<close>.  The \<^verbatim>\<open>connection\<close> section has a
  fixed set of fields in all its updates and is a record; its \<^verbatim>\<open>lastUpdate\<close> holds whatever
  value was stored there.  Among the values, \<open>JTime\<close> is a string that denotes a date,
  kept as the instant (milliseconds) it denotes, and \<open>JStr\<close> is any other string.  Of
  \<^verbatim>\<open>kpis\<close> only \<^verbatim>\<open>activeAlerts\<close> is kept.  The subscriber callbacks (\<^verbatim>\<open>_notify\<close>,
  \<^verbatim>\<open>_emitEvent\<close>) do not belong to the store's state.
\<close>

datatype jsval = JNum real | JStr string | JBool bool | JTime int

type_synonym js_object = "string \<rightharpoonup> jsval"

text \<open>What \<^verbatim>\<open>if (v)\<close> and \<^verbatim>\<open>v || d\<close> test.\<close>

fun truthy :: "jsval \<Rightarrow> bool" where
  "truthy (JNum r) = (r \<noteq> 0)"
| "truthy (JStr str) = (str \<noteq> [])"
| "truthy (JBool b) = b"
| "truthy (JTime t) = True"

text \<open>
  The time value of \<^verbatim>\<open>new Date(v)\<close>, or \<open>None\<close> for an invalid date: a number is
  truncated to an integer and must lie within 8.64e15 milliseconds of the epoch,
  \<^verbatim>\<open>true\<close> counts as 1, a string that denotes no date gives an invalid date.
\<close>

fun dateValue :: "jsval \<Rightarrow> int option" where
  "dateValue (JTime t) = Some t"
| "dateValue (JNum r) =
    (if \<bar>r\<bar> \<le> 8640000000000000 then Some (if 0 \<le> r then \<lfloor>r\<rfloor> else \<lceil>r\<rceil>) else None)"
| "dateValue (JBool b) = Some (if b then 1 else 0)"
| "dateValue (JStr str) = None"

record connection_info =
  conn_mode :: string
  conn_status :: "string option"
  conn_lastUpdate :: "jsval option"
  conn_lastRetry :: "int option"
  conn_lastError :: "int option"
  conn_errorMessage :: "string option"
  conn_latency :: "int option"

record store_state =
  motors :: "string \<rightharpoonup> js_object"
  kpis_activeAlerts :: nat
  alerts_active :: "alert list"
  alerts_history :: "alert list"
  systemStatus :: string
  connection :: connection_info

definition initialMotor :: js_object where
  "initialMotor =
    [''temperature'' \<mapsto> JNum 0, ''oil_pressure'' \<mapsto> JNum 0, ''clutch_pressure'' \<mapsto> JNum 0,
     ''status'' \<mapsto> JStr ''normal'']"

definition store_constructor :: store_state where
  "store_constructor =
    \<lparr>motors = [''motor1'' \<mapsto> initialMotor, ''motor2'' \<mapsto> initialMotor],
     kpis_activeAlerts = 0, alerts_active = [], alerts_history = [],
     systemStatus = ''connecting'',
     connection =
       \<lparr>conn_mode = ''websocket'', conn_status = None, conn_lastUpdate = None,
        conn_lastRetry = None, conn_lastError = None, conn_errorMessage = None,
        conn_latency = None\<rparr>\<rparr>"

definition updateMotor :: "int \<Rightarrow> string \<Rightarrow> js_object \<Rightarrow> store_state \<Rightarrow> store_state" where
  "updateMotor t mid data s =
    (case motors s mid of
       None \<Rightarrow> s
     | Some m \<Rightarrow> s\<lparr>motors := (motors s)(mid \<mapsto> (m ++ data)(''lastUpdate'' \<mapsto> JTime t))\<rparr>)"

text \<open>
  \<^verbatim>\<open>addAlert(alert)\<close>: the stored object is \<^verbatim>\<open>{ ...alert, id, timestamp, resolved: false }\<close>
  with a new UUID and the current time; it is pushed to the active list and unshifted into
  the history, which loses its last entry when it has grown beyond 100.
\<close>

definition addAlert :: "string \<Rightarrow> int \<Rightarrow> alert \<Rightarrow> store_state \<Rightarrow> store_state" where
  "addAlert newId t a s =
    (let stored = a\<lparr>alert_id := newId, timestamp := t, resolved := False\<rparr>;
         active = alerts_active s @ [stored];
         unshifted = stored # alerts_history s
     in s\<lparr>alerts_active := active,
          alerts_history := (if length unshifted > 100 then butlast unshifted else unshifted),
          kpis_activeAlerts := length active\<rparr>)"

section \<open>Push transport wrapper (services/websocket-service.js)\<close>

text \<open>
  The fields of \<^verbatim>\<open>WebSocketService\<close> that the reconnect logic reads and writes.  Two logs
  record its effects on the outside: the delays (milliseconds) of the reconnect timers it
  sets with \<^verbatim>\<open>setTimeout\<close>, and the names of the document events it dispatches.  Its
  updates of the store are left out here.
\<close>

datatype ready_state = Connecting | Open | Closing | Closed

record ws_state =
  socket :: "ready_state option"
  reconnectInterval :: real
  maxRetries :: nat
  currentRetries :: nat
  isManualClose :: bool
  scheduled :: "real list"
  dispatched :: "string list"

definition ws_constructor :: ws_state where
  "ws_constructor =
    \<lparr>socket = None, reconnectInterval = 3000, maxRetries = 10, currentRetries = 0,
     isManualClose = False, scheduled = [], dispatched = []\<rparr>"

definition isConnected :: "ws_state \<Rightarrow> bool" where
  "isConnected s \<longleftrightarrow> socket s = Some Open"

definition scheduleReconnect :: "ws_state \<Rightarrow> ws_state" where
  "scheduleReconnect s =
    (if currentRetries s \<ge> maxRetries s then s
     else
       (let s1 = s\<lparr>currentRetries := currentRetries s + 1\<rparr>;
            delay = reconnectInterval s1 * (15 / 10) ^ (currentRetries s1 - 1)
        in s1\<lparr>scheduled := scheduled s1 @ [delay]\<rparr>))"

text \<open>
  \<^verbatim>\<open>connect()\<close>; the flag says whether \<^verbatim>\<open>new WebSocket(url)\<close> throws, in which case the
  \<^verbatim>\<open>catch\<close> block schedules a reconnect.
\<close>

definition connect :: "bool \<Rightarrow> ws_state \<Rightarrow> ws_state" where
  "connect throws s =
    (if isConnected s then s
     else
       (let s1 = s\<lparr>isManualClose := False\<rparr>
        in if throws then scheduleReconnect s1 else s1\<lparr>socket := Some Connecting\<rparr>))"

definition socket_onopen :: "ws_state \<Rightarrow> ws_state" where
  "socket_onopen s =
    s\<lparr>socket := Some Open, currentRetries := 0,
      dispatched := dispatched s @ [''websocket:connected'']\<rparr>"

text \<open>The \<^verbatim>\<open>onclose\<close> handler; the socket that delivers the event is closed.\<close>

definition socket_onclose :: "ws_state \<Rightarrow> ws_state" where
  "socket_onclose s =
    (let s1 = s\<lparr>socket := map_option (\<lambda>r. Closed) (socket s)\<rparr>
     in if \<not> isManualClose s1 \<and> currentRetries s1 < maxRetries s1 then scheduleReconnect s1
        else if \<not> isManualClose s1 then
          s1\<lparr>dispatched := dispatched s1 @ [''websocket:maxRetries'']\<rparr>
        else s1)"

text \<open>The callback of the reconnect timer.\<close>

definition reconnectTimer :: "bool \<Rightarrow> ws_state \<Rightarrow> ws_state" where
  "reconnectTimer throws s = (if \<not> isManualClose s then connect throws s else s)"

definition disconnect :: "ws_state \<Rightarrow> ws_state" where
  "disconnect s = s\<lparr>isManualClose := True, socket := None\<rparr>"

text \<open>
  One round of a connection that keeps failing: the socket closes; if the close handler
  has set a reconnect timer, the timer fires and its callback opens a new socket.
\<close>

definition retryRound :: "ws_state \<Rightarrow> ws_state" where
  "retryRound s =
    (let s1 = socket_onclose s
     in if length (scheduled s1) > length (scheduled s) then reconnectTimer False s1 else s1)"

text \<open>The delay that the specification gives for reconnect attempt \<open>n\<close>.\<close>

definition specDelay :: "nat \<Rightarrow> real" where
  "specDelay n = 3000 * (15 / 10) ^ (n - 1)"


section \<open>Realtime monitor (modules/dashboard/realtime-monitor.js)\<close>

text \<open>
  The fields of \<^verbatim>\<open>RealtimeMonitor\<close>, together with the store it writes to.
  \<open>pollingInterval\<close> says whether the field of that name holds a timer handle.  Five
  components are bookkeeping of what the monitor has handed to the browser:
  \<open>listeners\<close> counts the calls of \<^verbatim>\<open>setupConnectionListeners\<close>, each of which adds one
  listener for each of the three document events, and no code removes them;
  \<open>healthMonitors\<close> counts the intervals of \<^verbatim>\<open>startConnectionMonitor\<close>, which are never
  cleared; \<open>liveIntervals\<close> counts the polling intervals that are running (\<^verbatim>\<open>stop()\<close>
  clears the one whose handle the field holds); \<open>recoveryTimers\<close> holds the delays of
  the recovery timers that are set and have not fired; \<open>inFlight\<close> counts the invocations
  of \<^verbatim>\<open>executePollingCycle\<close> that are suspended at an \<^verbatim>\<open>await\<close>.  An \<^verbatim>\<open>async\<close> function
  runs up to its first \<^verbatim>\<open>await\<close> inside the caller's turn and resumes in a later turn of
  the event loop; other handlers can run in between.
\<close>

datatype conn_mode = ModeNone | Websocket | Polling | Offline

record rm_state =
  mode :: conn_mode
  lastSuccess :: "int option"
  errors :: nat
  isPollingActive :: bool
  pollingRetries :: nat
  maxPollingRetries :: nat
  pollingAttempts :: nat
  pollingSuccess :: nat
  pollingErrors :: nat
  lastPollDuration :: int
  pollingInterval :: bool
  liveIntervals :: nat
  healthMonitors :: nat
  listeners :: nat
  recoveryTimers :: "nat list"
  inFlight :: nat
  store :: store_state

definition rm_constructor :: "store_state \<Rightarrow> rm_state" where
  "rm_constructor st =
    \<lparr>mode = ModeNone, lastSuccess = None, errors = 0, isPollingActive = False,
     pollingRetries = 0, maxPollingRetries = 3, pollingAttempts = 0, pollingSuccess = 0,
     pollingErrors = 0, lastPollDuration = 0, pollingInterval = False, liveIntervals = 0,
     healthMonitors = 0, listeners = 0, recoveryTimers = [], inFlight = 0, store = st\<rparr>"

text \<open>
  \<^verbatim>\<open>start()\<close>: besides the two assignments it starts the health check interval and a
  polling interval (whose handle it stores) and registers the listeners, each time it is
  called.
\<close>

definition start :: "int \<Rightarrow> rm_state \<Rightarrow> rm_state" where
  "start t s =
    s\<lparr>mode := Websocket, lastSuccess := Some t,
      healthMonitors := healthMonitors s + 1,
      pollingInterval := True, liveIntervals := liveIntervals s + 1,
      listeners := listeners s + 1\<rparr>"

definition pausePolling :: "rm_state \<Rightarrow> rm_state" where
  "pausePolling s = s\<lparr>isPollingActive := False\<rparr>"

definition resumePolling :: "rm_state \<Rightarrow> rm_state" where
  "resumePolling s = s\<lparr>isPollingActive := False\<rparr>"

text \<open>
  \<^verbatim>\<open>useSimulatedData\<close>; the argument \<open>rnd\<close> gives the six values of \<^verbatim>\<open>Math.random()\<close> in
  the order of the calls.  Each product and each sum is rounded to a double.
\<close>

definition useSimulatedData :: "int \<Rightarrow> (nat \<Rightarrow> real) \<Rightarrow> rm_state \<Rightarrow> rm_state" where
  "useSimulatedData t rnd s =
    (let motor1Data =
           [''temperature'' \<mapsto> JNum (toDouble (65 + toDouble (rnd 0 * 55))),
            ''oil_pressure'' \<mapsto> JNum (toDouble (30 + toDouble (rnd 1 * 35))),
            ''clutch_pressure'' \<mapsto> JNum (toDouble (100 + toDouble (rnd 2 * 50))),
            ''status'' \<mapsto> JStr ''normal'', ''lastUpdate'' \<mapsto> JTime t,
            ''isSimulated'' \<mapsto> JBool True];
         motor2Data =
           [''temperature'' \<mapsto> JNum (toDouble (60 + toDouble (rnd 3 * 60))),
            ''oil_pressure'' \<mapsto> JNum (toDouble (25 + toDouble (rnd 4 * 45))),
            ''clutch_pressure'' \<mapsto> JNum (toDouble (105 + toDouble (rnd 5 * 55))),
            ''status'' \<mapsto> JStr ''normal'', ''lastUpdate'' \<mapsto> JTime t,
            ''isSimulated'' \<mapsto> JBool True];
         st1 = updateMotor t ''motor1'' motor1Data (store s);
         st2 = updateMotor t ''motor2'' motor2Data st1
     in s\<lparr>store := st2\<lparr>systemStatus := ''warning''\<rparr>\<rparr>)"

definition scheduleRecoveryAttempt :: "rm_state \<Rightarrow> rm_state" where
  "scheduleRecoveryAttempt s = s\<lparr>recoveryTimers := recoveryTimers s @ [30000]\<rparr>"

definition activateOfflineMode :: "int \<Rightarrow> (nat \<Rightarrow> real) \<Rightarrow> rm_state \<Rightarrow> rm_state" where
  "activateOfflineMode t rnd s =
    (let s1 = s\<lparr>mode := Offline,
               store := (store s)\<lparr>connection := (connection (store s))
                 \<lparr>conn_mode := ''offline'', conn_status := Some ''offline'',
                  conn_lastUpdate := Some (JTime t)\<rparr>\<rparr>\<rparr>
     in scheduleRecoveryAttempt (useSimulatedData t rnd s1))"

text \<open>The callback of the recovery timer; the timer that fires leaves the pending list.\<close>

definition recoveryAttempt :: "rm_state \<Rightarrow> rm_state" where
  "recoveryAttempt s =
    (let s1 = s\<lparr>recoveryTimers := tl (recoveryTimers s)\<rparr>
     in if mode s1 = Offline then resumePolling (s1\<lparr>mode := Polling, pollingRetries := 0\<rparr>)
        else s1)"

subsection \<open>Listeners for the events of the push transport\<close>

definition on_websocket_connected :: "int \<Rightarrow> rm_state \<Rightarrow> rm_state" where
  "on_websocket_connected t s =
    pausePolling
      (s\<lparr>mode := Websocket, lastSuccess := Some t, errors := 0,
         store := (store s)\<lparr>connection := (connection (store s))
           \<lparr>conn_mode := ''websocket'', conn_status := Some ''connected'',
            conn_lastUpdate := Some (JTime t)\<rparr>\<rparr>\<rparr>)"

definition on_websocket_disconnected :: "int \<Rightarrow> rm_state \<Rightarrow> rm_state" where
  "on_websocket_disconnected t s =
    resumePolling
      (s\<lparr>mode := Polling,
         store := (store s)\<lparr>connection := (connection (store s))
           \<lparr>conn_mode := ''polling'', conn_status := Some ''disconnected'',
            conn_lastRetry := Some t\<rparr>\<rparr>\<rparr>)"

definition on_websocket_maxRetries :: "int \<Rightarrow> (nat \<Rightarrow> real) \<Rightarrow> rm_state \<Rightarrow> rm_state" where
  "on_websocket_maxRetries t rnd s =
    activateOfflineMode t rnd
      (s\<lparr>mode := Offline,
         store := (store s)\<lparr>connection := (connection (store s))
           \<lparr>conn_mode := ''offline'', conn_status := Some ''failed'',
            conn_lastUpdate := Some (JTime t)\<rparr>\<rparr>\<rparr>)"

text \<open>
  The time value of \<^verbatim>\<open>new Date(state.connection.lastUpdate || 0)\<close>: the epoch when the
  store holds no update time or a falsy one; \<open>None\<close> for an invalid date.
\<close>

definition lastUpdateTime :: "store_state \<Rightarrow> int option" where
  "lastUpdateTime st =
    (case conn_lastUpdate (connection st) of
       None \<Rightarrow> Some 0
     | Some v \<Rightarrow> if truthy v then dateValue v else Some 0)"

text \<open>
  \<^verbatim>\<open>checkConnectionHealth\<close>, run every 10 seconds.  With an invalid date the difference
  is \<^verbatim>\<open>NaN\<close> and the comparison is false.  The two time values are integers, so the
  rounded quotient exceeds 30 exactly when the exact one does.
\<close>

definition checkConnectionHealth :: "int \<Rightarrow> rm_state \<Rightarrow> rm_state" where
  "checkConnectionHealth t s =
    (case lastUpdateTime (store s) of
       None \<Rightarrow> s
     | Some lastUpdate \<Rightarrow>
         (let secondsSinceLastUpdate = real_of_int (t - lastUpdate) / 1000
          in if secondsSinceLastUpdate > 30 \<and> mode s = Websocket then
               resumePolling
                 (s\<lparr>mode := Polling,
                    store := (store s)\<lparr>connection := (connection (store s))
                      \<lparr>conn_mode := ''polling'', conn_status := Some ''degraded''\<rparr>\<rparr>\<rparr>)
             else s))"

subsection \<open>The polling cycle\<close>

text \<open>
  The answer of the polling endpoint: the fields of the JSON object, and its \<^verbatim>\<open>timestamp\<close>
  entry when it has one.  The variable keys of the two motors come from \<^verbatim>\<open>config.MOTORS\<close>,
  which is not among the sources; they are a parameter.
\<close>

record poll_response =
  api_fields :: js_object
  api_timestamp :: "jsval option"

record motors_config =
  motor1_variables :: "string list"
  motor2_variables :: "string list"

definition collectFields :: "string \<Rightarrow> string list \<Rightarrow> js_object \<Rightarrow> js_object" where
  "collectFields suffix vars api = (\<lambda>k. if k \<in> set vars then api (k @ suffix) else None)"

definition hasFields :: "string \<Rightarrow> string list \<Rightarrow> js_object \<Rightarrow> bool" where
  "hasFields suffix vars api = list_ex (\<lambda>k. api (k @ suffix) \<noteq> None) vars"

definition processPollingData ::
  "int \<Rightarrow> motors_config \<Rightarrow> poll_response option \<Rightarrow> store_state \<Rightarrow> store_state" where
  "processPollingData t cfg apiData st =
    (case apiData of
       None \<Rightarrow> st
     | Some d \<Rightarrow>
         (let st1 =
                (if hasFields ''_motor1'' (motor1_variables cfg) (api_fields d) then
                   updateMotor t ''motor1''
                     ((collectFields ''_motor1'' (motor1_variables cfg) (api_fields d))
                        (''lastUpdate'' \<mapsto> JTime t, ''status'' \<mapsto> JStr ''normal''))
                     st
                 else st);
              st2 =
                (if hasFields ''_motor2'' (motor2_variables cfg) (api_fields d) then
                   updateMotor t ''motor2''
                     ((collectFields ''_motor2'' (motor2_variables cfg) (api_fields d))
                        (''lastUpdate'' \<mapsto> JTime t, ''status'' \<mapsto> JStr ''normal''))
                     st1
                 else st1)
          in case api_timestamp d of
               None \<Rightarrow> st2
             | Some u \<Rightarrow>
                 if truthy u then
                   st2\<lparr>connection := (connection st2)\<lparr>conn_lastUpdate := Some u\<rparr>\<rparr>
                 else st2))"

definition handlePollingError :: "int \<Rightarrow> string \<Rightarrow> (nat \<Rightarrow> real) \<Rightarrow> rm_state \<Rightarrow> rm_state" where
  "handlePollingError t msg rnd s =
    (let s1 = s\<lparr>store := (store s)\<lparr>connection := (connection (store s))
                 \<lparr>conn_status := Some ''error'', conn_lastError := Some t,
                  conn_errorMessage := Some msg\<rparr>\<rparr>\<rparr>
     in if pollingRetries s1 \<ge> maxPollingRetries s1 then activateOfflineMode t rnd s1 else s1)"

text \<open>How a polling cycle that got past its first \<^verbatim>\<open>await\<close> ends.\<close>

datatype cycle_outcome =
  Failed string "nat \<Rightarrow> real"
| Succeeded "poll_response option" int motors_config

text \<open>The rest of the \<^verbatim>\<open>try\<close> block after the two \<^verbatim>\<open>await\<close>s.\<close>

definition cycleTry ::
  "int \<Rightarrow> poll_response option \<Rightarrow> int \<Rightarrow> motors_config \<Rightarrow> rm_state \<Rightarrow> rm_state" where
  "cycleTry t apiData duration cfg s =
    (let st1 = processPollingData t cfg apiData (store s)
     in s\<lparr>pollingSuccess := pollingSuccess s + 1, lastPollDuration := duration,
          pollingRetries := 0, lastSuccess := Some t, errors := 0,
          store := st1\<lparr>connection := (connection st1)
            \<lparr>conn_mode := ''polling'', conn_status := Some ''connected'',
             conn_lastUpdate := Some (JTime t), conn_latency := Some duration\<rparr>\<rparr>\<rparr>)"

text \<open>The \<^verbatim>\<open>catch\<close> block.\<close>

definition cycleCatch :: "int \<Rightarrow> string \<Rightarrow> (nat \<Rightarrow> real) \<Rightarrow> rm_state \<Rightarrow> rm_state" where
  "cycleCatch t msg rnd s =
    handlePollingError t msg rnd
      (s\<lparr>pollingErrors := pollingErrors s + 1, errors := errors s + 1,
         pollingRetries := pollingRetries s + 1\<rparr>)"

text \<open>The \<^verbatim>\<open>finally\<close> block.\<close>

definition cycleFinally :: "rm_state \<Rightarrow> rm_state" where
  "cycleFinally s = s\<lparr>isPollingActive := False\<rparr>"

text \<open>
  \<^verbatim>\<open>executePollingCycle()\<close> up to its first \<^verbatim>\<open>await\<close>.  Without a token the error is thrown
  before any \<^verbatim>\<open>await\<close> and the whole cycle, \<^verbatim>\<open>catch\<close> and \<^verbatim>\<open>finally\<close> included, runs within
  the call; otherwise the invocation is suspended at \<^verbatim>\<open>await fetch(...)\<close>.
\<close>

definition executePollingCycle ::
  "bool \<Rightarrow> int \<Rightarrow> (nat \<Rightarrow> real) \<Rightarrow> rm_state \<Rightarrow> rm_state" where
  "executePollingCycle hasToken t rnd s =
    (if isPollingActive s then s
     else
       (let s1 = s\<lparr>isPollingActive := True, pollingAttempts := pollingAttempts s + 1\<rparr>
        in if \<not> hasToken then cycleFinally (cycleCatch t ''Usuario no autenticado'' rnd s1)
           else s1\<lparr>inFlight := inFlight s1 + 1\<rparr>))"

text \<open>A suspended invocation resumes with the outcome of the request and runs to its end.\<close>

definition cycleResume :: "int \<Rightarrow> cycle_outcome \<Rightarrow> rm_state \<Rightarrow> rm_state" where
  "cycleResume t outcome s =
    (let s1 = s\<lparr>inFlight := inFlight s - 1\<rparr>
     in cycleFinally
          (case outcome of
             Failed msg rnd \<Rightarrow> cycleCatch t msg rnd s1
           | Succeeded apiData duration cfg \<Rightarrow> cycleTry t apiData duration cfg s1))"

text \<open>The callback of the polling interval set by \<^verbatim>\<open>startFallbackPolling\<close>.\<close>

definition pollingTick :: "bool \<Rightarrow> int \<Rightarrow> (nat \<Rightarrow> real) \<Rightarrow> rm_state \<Rightarrow> rm_state" where
  "pollingTick hasToken t rnd s =
    (if mode s = Polling \<and> \<not> isPollingActive s then executePollingCycle hasToken t rnd s
     else s)"

text \<open>
  \<^verbatim>\<open>stop()\<close> clears the polling interval whose handle the field holds; \<^verbatim>\<open>fallbackInterval\<close>
  is never set.  The listeners and the health check interval stay.
\<close>

definition stop :: "rm_state \<Rightarrow> rm_state" where
  "stop s =
    s\<lparr>liveIntervals := (if pollingInterval s then liveIntervals s - 1 else liveIntervals s),
      pollingInterval := False, isPollingActive := False, pollingRetries := 0,
      mode := ModeNone\<rparr>"

subsection \<open>The monitor as an event-driven machine\<close>

text \<open>
  What can happen to the monitor: a call of \<^verbatim>\<open>start\<close> or \<^verbatim>\<open>stop\<close>, the dispatch of one of
  the three document events, a run of the callback of an interval or a timer, the
  resumption of a suspended polling cycle; each with what the browser supplies to it.
  Each handler runs to completion before the next.
\<close>

datatype rm_event =
  Start int
| WsConnected int
| WsDisconnected int
| WsMaxRetries int "nat \<Rightarrow> real"
| HealthCheck int
| Tick bool int "nat \<Rightarrow> real"
| CycleEnds int cycle_outcome
| RecoveryTimer
| Stop

text \<open>
  The dispatch of a document event runs every registered listener for it, in the order of
  registration; with none registered nothing runs.  The argument of the handler is the
  position of the listener.
\<close>

definition dispatchToListeners :: "(nat \<Rightarrow> rm_state \<Rightarrow> rm_state) \<Rightarrow> rm_state \<Rightarrow> rm_state" where
  "dispatchToListeners handler s = fold handler [0..<listeners s] s"

text \<open>Each run of the listener for exhausted retries draws its own six random numbers.\<close>

fun rm_step :: "rm_state \<Rightarrow> rm_event \<Rightarrow> rm_state" where
  "rm_step s (Start t) = start t s"
| "rm_step s (WsConnected t) = dispatchToListeners (\<lambda>i. on_websocket_connected t) s"
| "rm_step s (WsDisconnected t) = dispatchToListeners (\<lambda>i. on_websocket_disconnected t) s"
| "rm_step s (WsMaxRetries t rnd) =
    dispatchToListeners (\<lambda>i. on_websocket_maxRetries t (\<lambda>j. rnd (6 * i + j))) s"
| "rm_step s (HealthCheck t) = checkConnectionHealth t s"
| "rm_step s (Tick hasToken t rnd) = pollingTick hasToken t rnd s"
| "rm_step s (CycleEnds t outcome) = cycleResume t outcome s"
| "rm_step s RecoveryTimer = recoveryAttempt s"
| "rm_step s Stop = stop s"

text \<open>
  An event can occur when its source exists: an interval callback runs only if such an
  interval is running, a suspended cycle can only end if there is one, and a recovery
  timer can only fire if one is pending.  A document event can be dispatched at any time.
\<close>

fun rm_enabled :: "rm_state \<Rightarrow> rm_event \<Rightarrow> bool" where
  "rm_enabled s (HealthCheck t) = (healthMonitors s > 0)"
| "rm_enabled s (Tick hasToken t rnd) = (liveIntervals s > 0)"
| "rm_enabled s (CycleEnds t outcome) = (inFlight s > 0)"
| "rm_enabled s RecoveryTimer = (recoveryTimers s \<noteq> [])"
| "rm_enabled s ev = True"

fun rm_run :: "rm_state \<Rightarrow> rm_event list \<Rightarrow> rm_state option" where
  "rm_run s [] = Some s"
| "rm_run s (ev # evs) = (if rm_enabled s ev then rm_run (rm_step s ev) evs else None)"

fun isDocumentEvent :: "rm_event \<Rightarrow> bool" where
  "isDocumentEvent (WsConnected t) = True"
| "isDocumentEvent (WsDisconnected t) = True"
| "isDocumentEvent (WsMaxRetries t rnd) = True"
| "isDocumentEvent ev = False"

subsection \<open>The transition table of the specification\<close>

text \<open>
  The signals of the specification's mode selector, and its table: start and connected
  lead to the push transport, disconnected to polling, exhausted retries of the push
  layer and polling exhausted after 3 failures to offline, a stale liveness check moves
  the push transport to polling, the elapsed recovery delay moves offline to polling;
  stopping leads to none; anything else leaves the mode.
\<close>

datatype signal =
  SigStart | SigConnected | SigDisconnected | SigRetriesExhausted | SigLivenessStale
| SigPollingExhausted | SigRecoveryElapsed | SigStop | SigOther

fun specModeTable :: "conn_mode \<Rightarrow> signal \<Rightarrow> conn_mode" where
  "specModeTable m SigStart = Websocket"
| "specModeTable m SigConnected = Websocket"
| "specModeTable m SigDisconnected = Polling"
| "specModeTable m SigRetriesExhausted = Offline"
| "specModeTable m SigPollingExhausted = Offline"
| "specModeTable m SigLivenessStale = (if m = Websocket then Polling else m)"
| "specModeTable m SigRecoveryElapsed = (if m = Offline then Polling else m)"
| "specModeTable m SigStop = ModeNone"
| "specModeTable m SigOther = m"

text \<open>
  Which signal a run of a handler is.  A failed polling cycle is the signal ``polling
  exhausted'' when it brings the retry counter to the maximum; a health check is the
  signal ``liveness stale'' when the last update is a valid date more than 30 seconds
  old.
\<close>

definition failureSignal :: "rm_state \<Rightarrow> signal" where
  "failureSignal s =
    (if pollingRetries s + 1 \<ge> maxPollingRetries s then SigPollingExhausted else SigOther)"

fun signalOf :: "rm_state \<Rightarrow> rm_event \<Rightarrow> signal" where
  "signalOf s (Start t) = SigStart"
| "signalOf s (WsConnected t) = SigConnected"
| "signalOf s (WsDisconnected t) = SigDisconnected"
| "signalOf s (WsMaxRetries t rnd) = SigRetriesExhausted"
| "signalOf s (HealthCheck t) =
    (case lastUpdateTime (store s) of
       None \<Rightarrow> SigOther
     | Some u \<Rightarrow> if t - u > 30000 then SigLivenessStale else SigOther)"
| "signalOf s (Tick hasToken t rnd) =
    (if mode s = Polling \<and> \<not> isPollingActive s \<and> \<not> hasToken then failureSignal s
     else SigOther)"
| "signalOf s (CycleEnds t (Failed msg rnd)) = failureSignal s"
| "signalOf s (CycleEnds t (Succeeded apiData duration cfg)) = SigOther"
| "signalOf s RecoveryTimer = SigRecoveryElapsed"
| "signalOf s Stop = SigStop"

subsection \<open>Concrete runs of the monitor\<close>

definition noRandom :: "nat \<Rightarrow> real" where
  "noRandom i = 1 / 2"

definition pollingState :: rm_state where
  "pollingState = on_websocket_disconnected 1000 (start 0 (rm_constructor store_constructor))"

text \<open>
  The push transport is reported disconnected again while a polling cycle waits for its
  answer, and the polling interval ticks once more.
\<close>

definition overlapTrace :: "rm_event list" where
  "overlapTrace =
    [Start 0, WsDisconnected 1000, Tick True 5000 noRandom, WsDisconnected 6000,
     Tick True 10000 noRandom]"

text \<open>A polling cycle that the interval starts and that ends with an error.\<close>

definition failedCycle :: "int \<Rightarrow> string \<Rightarrow> (nat \<Rightarrow> real) \<Rightarrow> rm_state \<Rightarrow> rm_state" where
  "failedCycle t msg rnd s =
    rm_step (rm_step s (Tick True t rnd)) (CycleEnds t (Failed msg rnd))"

text \<open>Whether the store's record of a motor carries \<^verbatim>\<open>isSimulated: true\<close>.\<close>

definition isSimulated :: "store_state \<Rightarrow> string \<Rightarrow> bool" where
  "isSimulated st mid =
    (case motors st mid of
       None \<Rightarrow> False
     | Some m \<Rightarrow> m ''isSimulated'' = Some (JBool True))"

text \<open>A monitor that was started and stopped, and the state after three failed cycles.\<close>

definition stoppedState :: rm_state where
  "stoppedState = stop (start 0 (rm_constructor store_constructor))"

definition exhaustedState :: rm_state where
  "exhaustedState =
    failedCycle 15000 ''Failed to fetch'' noRandom
      (failedCycle 10000 ''Failed to fetch'' noRandom
        (failedCycle 5000 ''Failed to fetch'' noRandom pollingState))"

section \<open>Proofs: double precision\<close>

lemma powi2_less_cancel: "(2::real) powi a < 2 powi b \<Longrightarrow> a < b"
proof (rule ccontr)
  assume l: "(2::real) powi a < 2 powi b" and "\<not> a < b"
  then have "b \<le> a" by simp
  then have "(2::real) powi b \<le> 2 powi a" by (simp add: power_int_increasing)
  with l show False by simp
qed

lemma powi2_pos: "0 < (2::real) powi e"
  by (simp add: zero_less_power_int)

lemma binexp_bounds: "0 < x \<Longrightarrow> 2 powi binexp x \<le> x \<and> x < 2 powi (binexp x + 1)"
proof (induction x rule: binexp.induct)
  case (1 x)
  show ?case
  proof (cases "2 \<le> x")
    case True
    with 1 have ih: "2 powi binexp (x / 2) \<le> x / 2 \<and> x / 2 < 2 powi (binexp (x / 2) + 1)"
      by simp
    have b: "binexp x = binexp (x / 2) + 1" using True 1(3) by (simp add: binexp.simps)
    show ?thesis unfolding b using ih by (simp add: power_int_add)
  next
    case False
    show ?thesis
    proof (cases "x < 1")
      case True
      with 1 False have ih: "2 powi binexp (x * 2) \<le> x * 2 \<and> x * 2 < 2 powi (binexp (x * 2) + 1)"
        by simp
      have b: "binexp x = binexp (x * 2) - 1" using True False 1(3) by (simp add: binexp.simps)
      show ?thesis unfolding b using ih by (simp add: power_int_add power_int_diff)
    next
      case n: False
      with False 1(3) have "binexp x = 0" by (simp add: binexp.simps)
      with n False show ?thesis by simp
    qed
  qed
qed

lemma binexp_eqI:
  assumes "2 powi e \<le> x" and "x < 2 powi (e + 1)"
  shows "binexp x = e"
proof -
  have pos: "0 < x" using assms(1) powi2_pos [of e] by linarith
  from binexp_bounds [OF pos] have b: "2 powi binexp x \<le> x" "x < 2 powi (binexp x + 1)"
    by simp_all
  have "(2::real) powi e < 2 powi (binexp x + 1)" using assms(1) b(2) by simp
  then have 1: "e < binexp x + 1" by (rule powi2_less_cancel)
  have "(2::real) powi binexp x < 2 powi (e + 1)" using assms(2) b(1) by simp
  then have 2: "binexp x < e + 1" by (rule powi2_less_cancel)
  from 1 2 show ?thesis by simp
qed

lemma roundTiesToEven_eqI:
  assumes "\<bar>y - of_int m\<bar> < 1 / 2"
  shows "roundTiesToEven y = m"
proof -
  from assms have "\<lfloor>y\<rfloor> = m \<or> \<lfloor>y\<rfloor> = m - 1" by linarith
  then show ?thesis
  proof
    assume f: "\<lfloor>y\<rfloor> = m"
    with assms have "y - of_int m < 1 / 2" by linarith
    with f show ?thesis by (simp add: roundTiesToEven_def Let_def)
  next
    assume f: "\<lfloor>y\<rfloor> = m - 1"
    from assms have "of_int m - y < 1 / 2" by (simp only: abs_less_iff) linarith
    then have "1 / 2 < y - of_int (m - 1)" by simp
    with f show ?thesis by (simp add: roundTiesToEven_def Let_def)
  qed
qed

text \<open>
  A real within half a spacing of the double \<open>m * 2 ^ (e - 52)\<close> of its own binade
  rounds to that double.
\<close>

lemma toDouble_eqI:
  assumes "2 powi e \<le> \<bar>x\<bar>" and "\<bar>x\<bar> < 2 powi (e + 1)" and "- 1022 \<le> e"
    and "\<bar>x / 2 powi (e - 52) - of_int m\<bar> < 1 / 2"
  shows "toDouble x = of_int m * 2 powi (e - 52)"
proof -
  have b: "binexp \<bar>x\<bar> = e" by (rule binexp_eqI [OF assms(1,2)])
  have u: "ulp x = 2 powi (e - 52)" using assms(3) by (simp add: ulp_def b)
  have nz: "x \<noteq> 0" using assms(1) powi2_pos [of e] by linarith
  show ?thesis
    using nz by (simp add: toDouble_def u roundTiesToEven_eqI [OF assms(4)])
qed

text \<open>The doubles that the concrete runs meet.\<close>

lemma double_0_02: "toDouble (2 / 100) = 5764607523034235 / 2 ^ 58"
  using toDouble_eqI [of "- 6" "2 / 100" 5764607523034235]
  by (simp add: power_int_minus)

lemma double_0_2: "toDouble (2 / 10) = 3602879701896397 / 2 ^ 54"
  using toDouble_eqI [of "- 3" "2 / 10" 7205759403792794]
  by (simp add: power_int_minus)

lemma band_65: "toDouble (65 * toDouble (2 / 100)) = 5854679515581645 / 2 ^ 52"
  unfolding double_0_02
  using toDouble_eqI [of 0 "65 * (5764607523034235 / 2 ^ 58)" 5854679515581645]
  by (simp add: power_int_minus)

lemma band_95: "toDouble (95 * toDouble (2 / 100)) = 8556839292003943 / 2 ^ 52"
  unfolding double_0_02
  using toDouble_eqI [of 0 "95 * (5764607523034235 / 2 ^ 58)" 8556839292003943]
  by (simp add: power_int_minus)

lemma difference_1_5_0_2:
  "toDouble (3 / 2 - toDouble (2 / 10)) = 5854679515581645 / 2 ^ 52"
  unfolding double_0_2
  using toDouble_eqI [of 0 "3 / 2 - 3602879701896397 / 2 ^ 54" 5854679515581645]
  by (simp add: power_int_minus)

lemma double_integers:
  "toDouble (- 40) = - 40" "toDouble (- 35) = - 35" "toDouble 35 = 35"
  "toDouble (- 4) = - 4" "toDouble 1 = 1"
  using toDouble_eqI [of 5 "- 40" "- 40 * 2 ^ 47"] toDouble_eqI [of 5 "- 35" "- 35 * 2 ^ 47"]
    toDouble_eqI [of 5 "35" "35 * 2 ^ 47"] toDouble_eqI [of 2 "- 4" "- 4 * 2 ^ 50"]
    toDouble_eqI [of 0 "1" "2 ^ 52"]
  by (simp_all add: power_int_minus)

lemma no_overflow: "\<bar>x\<bar> \<le> 1000 \<Longrightarrow> \<not> overflows x"
  by (simp add: overflows_def)

section \<open>Proofs: alert manager\<close>

subsection \<open>The two branches of the upsert and of the resolution\<close>

lemma handleAlert_existing:
  "map_of (activeAlerts s) (alert_key d) = Some a \<Longrightarrow>
   handleAlert i d s =
     s\<lparr>activeAlerts := AList.update (alert_key d)
          (a\<lparr>alert_value := alert_value d, severity := severity d, message := message d,
             timestamp := timestamp d,
             updateCount := Some ((case updateCount a of None \<Rightarrow> 0 | Some n \<Rightarrow> n) + 1)\<rparr>)
          (activeAlerts s)\<rparr>"
  by (simp add: handleAlert_def)

lemma handleAlert_new:
  "map_of (activeAlerts s) (alert_key d) = None \<Longrightarrow>
   handleAlert i d s =
     s\<lparr>activeAlerts := AList.update (alert_key d) (newAlert i d) (activeAlerts s),
       alertHistory :=
         (if length (alertHistory s) \<ge> maxHistory s
          then butlast (newAlert i d # alertHistory s)
          else newAlert i d # alertHistory s)\<rparr>"
  by (simp add: handleAlert_def Let_def less_Suc_eq_le)

lemma resolveAlertByKey_none:
  "map_of (activeAlerts s) k = None \<Longrightarrow> resolveAlertByKey t k s = s"
  by (simp add: resolveAlertByKey_def)

lemma resolveAlertByKey_some:
  "map_of (activeAlerts s) k = Some a \<Longrightarrow>
   resolveAlertByKey t k s =
     s\<lparr>activeAlerts := AList.delete k (activeAlerts s),
       alertHistory := markResolved k t (alertHistory s)\<rparr>"
  by (simp add: resolveAlertByKey_def)

lemma newAlert_fields:
  "alert_key (newAlert i d) = alert_key d" "alert_id (newAlert i d) = i"
  "\<not> resolved (newAlert i d)" "updateCount (newAlert i d) = Some 1"
  "severity (newAlert i d) = severity d"
  by (simp_all add: newAlert_def)

subsection \<open>Searching and marking the history\<close>

lemma firstWithKey_Cons:
  "firstWithKey k (a # h) = (if alert_key a = k then Some a else firstWithKey k h)"
  by (simp add: firstWithKey_def)

lemma length_markResolved: "length (markResolved k t h) = length h"
  by (induction h) auto

lemma markResolved_absent: "firstWithKey k h = None \<Longrightarrow> markResolved k t h = h"
  by (induction h) (auto simp: firstWithKey_def)

lemma firstWithKey_markResolved_same:
  "firstWithKey k h = Some a \<Longrightarrow>
   firstWithKey k (markResolved k t h) = Some (a\<lparr>resolved := True, resolvedAt := Some t\<rparr>)"
  by (induction h) (auto simp: firstWithKey_def)

lemma firstWithKey_markResolved_other:
  "k' \<noteq> k \<Longrightarrow> firstWithKey k' (markResolved k t h) = firstWithKey k' h"
  by (induction h) (auto simp: firstWithKey_def)

lemma firstWithKey_butlast:
  "firstWithKey k (butlast h) = Some a \<Longrightarrow> firstWithKey k h = Some a"
  by (induction h) (auto simp: firstWithKey_def split: if_splits)

lemma firstWithKey_filter_unresolved:
  "firstWithKey k (filter (\<lambda>a. \<not> resolved a) h) = Some x \<Longrightarrow>
   firstWithKey k h = Some y \<Longrightarrow> \<not> resolved y \<Longrightarrow> x = y"
  by (induction h) (auto simp: firstWithKey_def split: if_splits)

lemma firstWithKey_filter_none:
  "firstWithKey k h = None \<Longrightarrow> firstWithKey k (filter P h) = None"
  by (induction h) (auto simp: firstWithKey_def split: if_splits)

lemma firstWithKey_mem: "firstWithKey k h = Some a \<Longrightarrow> a \<in> set h"
  by (induction h) (auto simp: firstWithKey_def split: if_splits)

lemma firstWithKey_none_iff: "firstWithKey k h = None \<longleftrightarrow> k \<notin> set (map alert_key h)"
  by (induction h) (auto simp: firstWithKey_def)

subsection \<open>The invariants hold in every reachable state\<close>

lemma inv_keys_handleAlert: "inv_keys s \<Longrightarrow> inv_keys (handleAlert i d s)"
proof (cases "map_of (activeAlerts s) (alert_key d)")
  case None
  assume "inv_keys s"
  then show ?thesis
    by (auto simp: inv_keys_def handleAlert_new [OF None] distinct_update update_conv'
          newAlert_fields split: if_splits)
next
  case (Some a)
  assume "inv_keys s"
  then show ?thesis
    using Some
    by (auto simp: inv_keys_def handleAlert_existing [OF Some] distinct_update update_conv'
          split: if_splits)
qed

lemma inv_keys_resolveAlertByKey: "inv_keys s \<Longrightarrow> inv_keys (resolveAlertByKey t k s)"
  by (cases "map_of (activeAlerts s) k")
     (auto simp: inv_keys_def resolveAlertByKey_none resolveAlertByKey_some distinct_delete
        delete_conv' split: if_splits)

lemma inv_hist_handleAlert: "inv_hist s \<Longrightarrow> inv_hist (handleAlert i d s)"
  by (cases "map_of (activeAlerts s) (alert_key d)")
     (auto simp: inv_hist_def handleAlert_new handleAlert_existing)

lemma inv_hist_resolveAlertByKey: "inv_hist s \<Longrightarrow> inv_hist (resolveAlertByKey t k s)"
  by (cases "map_of (activeAlerts s) k")
     (auto simp: inv_hist_def resolveAlertByKey_none resolveAlertByKey_some
        length_markResolved)

lemma inv_link_handleAlert:
  assumes "inv_link s"
  shows "inv_link (handleAlert i d s)"
proof (cases "map_of (activeAlerts s) (alert_key d)")
  case (Some a)
  with assms show ?thesis
    by (auto simp: inv_link_def handleAlert_existing [OF Some] update_conv' split: if_splits)
next
  case None
  let ?n = "newAlert i d"
  show ?thesis
    unfolding inv_link_def
  proof (intro allI impI)
    fix k a h
    assume act: "map_of (activeAlerts (handleAlert i d s)) k = Some a"
      and fnd: "firstWithKey k (alertHistory (handleAlert i d s)) = Some h"
    have fnd': "firstWithKey k (?n # alertHistory s) = Some h"
    proof (cases "maxHistory s \<le> length (alertHistory s)")
      case True
      with fnd have "firstWithKey k (butlast (?n # alertHistory s)) = Some h"
        by (simp add: handleAlert_new [OF None])
      then show ?thesis by (rule firstWithKey_butlast)
    next
      case False
      with fnd show ?thesis by (simp add: handleAlert_new [OF None])
    qed
    show "alert_id h = alert_id a \<and> \<not> resolved h"
    proof (cases "k = alert_key d")
      case True
      with act have "a = ?n" by (simp add: handleAlert_new [OF None] update_conv')
      moreover from fnd' True have "h = ?n"
        by (simp add: firstWithKey_Cons newAlert_fields)
      ultimately show ?thesis by (simp add: newAlert_fields)
    next
      case False
      with act have "map_of (activeAlerts s) k = Some a"
        by (simp add: handleAlert_new [OF None] update_conv')
      moreover from fnd' False have "firstWithKey k (alertHistory s) = Some h"
        by (simp add: firstWithKey_Cons newAlert_fields)
      ultimately show ?thesis using assms by (auto simp: inv_link_def)
    qed
  qed
qed

lemma inv_link_resolveAlertByKey: "inv_link s \<Longrightarrow> inv_link (resolveAlertByKey t k s)"
proof (cases "map_of (activeAlerts s) k")
  case None
  assume "inv_link s"
  then show ?thesis by (simp add: resolveAlertByKey_none [OF None])
next
  case (Some a)
  assume "inv_link s"
  then show ?thesis
    by (auto simp: inv_link_def resolveAlertByKey_some [OF Some] delete_conv'
          firstWithKey_markResolved_other split: if_splits)
qed

lemma am_inv_handleAlert: "am_inv s \<Longrightarrow> am_inv (handleAlert i d s)"
  by (simp add: am_inv_def inv_keys_handleAlert inv_hist_handleAlert inv_link_handleAlert)

lemma am_inv_resolveAlertByKey: "am_inv s \<Longrightarrow> am_inv (resolveAlertByKey t k s)"
  by (simp add: am_inv_def inv_keys_resolveAlertByKey inv_hist_resolveAlertByKey
        inv_link_resolveAlertByKey)

lemma am_inv_lastChecked: "am_inv s \<Longrightarrow> am_inv (s\<lparr>lastCheckedValues := l\<rparr>)"
  by (simp add: am_inv_def inv_keys_def inv_hist_def inv_link_def)

lemma am_inv_checkThreshold: "am_inv s \<Longrightarrow> am_inv (checkThreshold e mid v x s)"
  by (simp add: checkThreshold_def Let_def am_inv_handleAlert am_inv_resolveAlertByKey
        am_inv_lastChecked)

lemma am_inv_resolveAlert: "am_inv s \<Longrightarrow> am_inv (resolveAlert t i b s)"
  by (simp add: resolveAlert_def am_inv_resolveAlertByKey split: option.splits)

lemma am_inv_clearResolvedAlerts: "am_inv s \<Longrightarrow> am_inv (clearResolvedAlerts s)"
  unfolding am_inv_def
proof (intro conjI)
  assume a: "inv_keys s \<and> inv_hist s \<and> inv_link s"
  then show "inv_keys (clearResolvedAlerts s)"
    by (simp add: inv_keys_def clearResolvedAlerts_def)
  from a have "length (alertHistory s) \<le> 100"
    by (simp add: inv_hist_def)
  then have "length (filter (\<lambda>a. \<not> resolved a) (alertHistory s)) \<le> 100"
    by (rule le_trans [OF length_filter_le])
  with a show "inv_hist (clearResolvedAlerts s)"
    by (simp add: inv_hist_def clearResolvedAlerts_def)
  show "inv_link (clearResolvedAlerts s)"
    unfolding inv_link_def
  proof (intro allI impI)
    fix k a h
    assume act: "map_of (activeAlerts (clearResolvedAlerts s)) k = Some a"
      and fnd: "firstWithKey k (alertHistory (clearResolvedAlerts s)) = Some h"
    from act have act': "map_of (activeAlerts s) k = Some a"
      by (simp add: clearResolvedAlerts_def)
    from fnd have fnd': "firstWithKey k (filter (\<lambda>a. \<not> resolved a) (alertHistory s)) = Some h"
      by (simp add: clearResolvedAlerts_def)
    show "alert_id h = alert_id a \<and> \<not> resolved h"
    proof (cases "firstWithKey k (alertHistory s)")
      case None
      with fnd' show ?thesis by (simp add: firstWithKey_filter_none)
    next
      case (Some y)
      with a act' have y: "alert_id y = alert_id a \<and> \<not> resolved y"
        by (auto simp: inv_link_def)
      with fnd' Some have "h = y" by (auto dest: firstWithKey_filter_unresolved)
      with y show ?thesis by simp
    qed
  qed
qed

lemma am_inv_destroy: "am_inv s \<Longrightarrow> am_inv (destroy s)"
  by (simp add: am_inv_def inv_keys_def inv_hist_def inv_link_def destroy_def)

lemma am_inv_constructor: "am_inv (constructor t)"
  by (simp add: am_inv_def inv_keys_def inv_hist_def inv_link_def constructor_def
        initialize_def loadDemoHistory_def demoAlerts_def)

lemma am_reachable_inv: "am_reachable s \<Longrightarrow> am_inv s"
  by (induction rule: am_reachable.induct)
     (simp_all add: am_inv_constructor am_inv_checkThreshold am_inv_resolveAlert
        am_inv_clearResolvedAlerts am_inv_destroy)

subsection \<open>What one threshold check does\<close>

lemma evaluateThreshold_message:
  "fst (evaluateThreshold f (motorNameOf mid) v x) \<noteq> Normal \<Longrightarrow>
   snd (evaluateThreshold f (motorNameOf mid) v x) \<noteq> []"
  by (auto simp: evaluateThreshold_def motorNameOf_def split: if_splits)

lemma checkThreshold_skipped:
  "hysteresisSkips (map_of (lastCheckedValues s) (alertKeyOf mid v)) v x \<Longrightarrow>
   checkThreshold e mid v x s = s"
  by (simp add: checkThreshold_def)

lemma checkThreshold_breach:
  assumes "\<not> hysteresisSkips (map_of (lastCheckedValues s) (alertKeyOf mid v)) v x"
    and "fst (evaluateThreshold (toFixed1 e) (motorNameOf mid) v x) \<noteq> Normal"
  shows "checkThreshold e mid v x s =
    handleAlert (uuid e) (breachData e mid v x)
      (s\<lparr>lastCheckedValues := AList.update (alertKeyOf mid v) x (lastCheckedValues s)\<rparr>)"
  using assms evaluateThreshold_message [OF assms(2)]
  by (simp add: checkThreshold_def Let_def)

lemma checkThreshold_normal:
  assumes "\<not> hysteresisSkips (map_of (lastCheckedValues s) (alertKeyOf mid v)) v x"
    and "fst (evaluateThreshold (toFixed1 e) (motorNameOf mid) v x) = Normal"
  shows "checkThreshold e mid v x s =
    resolveAlertByKey (now e) (alertKeyOf mid v)
      (s\<lparr>lastCheckedValues := AList.update (alertKeyOf mid v) x (lastCheckedValues s)\<rparr>)"
  using assms
  by (simp add: checkThreshold_def Let_def resolveAlertByKey_none)

lemma lastCheckedValues_handleAlert:
  "lastCheckedValues (handleAlert i d s) = lastCheckedValues s"
  by (simp add: handleAlert_def Let_def split: option.splits)

lemma lastCheckedValues_resolveAlertByKey:
  "lastCheckedValues (resolveAlertByKey t k s) = lastCheckedValues s"
  by (simp add: resolveAlertByKey_def split: option.splits)

text \<open>A reading that is evaluated is recorded as the last value of its key.\<close>

lemma checkThreshold_records:
  assumes "\<not> hysteresisSkips (map_of (lastCheckedValues s) (alertKeyOf mid v)) v x"
  shows "map_of (lastCheckedValues (checkThreshold e mid v x s)) (alertKeyOf mid v) = Some x"
  by (cases "fst (evaluateThreshold (toFixed1 e) (motorNameOf mid) v x) = Normal")
     (simp_all add: checkThreshold_normal [OF assms] checkThreshold_breach [OF assms]
        lastCheckedValues_handleAlert lastCheckedValues_resolveAlertByKey update_conv')

lemma breachData_fields:
  "alert_key (breachData e mid v x) = alertKeyOf mid v"
  "severity (breachData e mid v x) = fst (evaluateThreshold (toFixed1 e) (motorNameOf mid) v x)"
  "message (breachData e mid v x) = snd (evaluateThreshold (toFixed1 e) (motorNameOf mid) v x)"
  "alert_value (breachData e mid v x) = toFixed1 e x"
  "timestamp (breachData e mid v x) = now e"
  by (simp_all add: breachData_def Let_def)

lemma activeSeverity_handleAlert:
  "activeSeverity (handleAlert i d s) (alert_key d) = Some (severity d)"
  by (cases "map_of (activeAlerts s) (alert_key d)")
     (simp_all add: activeSeverity_def handleAlert_new handleAlert_existing update_conv'
        newAlert_fields)

lemma activeSeverity_resolveAlertByKey:
  "activeSeverity (resolveAlertByKey t k s) k = None"
  by (cases "map_of (activeAlerts s) k")
     (simp_all add: activeSeverity_def resolveAlertByKey_none resolveAlertByKey_some
        delete_conv')

lemma update_absent: "map_of al k = None \<Longrightarrow> AList.update k v al = al @ [(k, v)]"
  by (induction al) (auto split: if_splits)

lemma delete_absent: "map_of al k = None \<Longrightarrow> AList.delete k al = al"
  by (induction al) (auto split: if_splits)


subsection \<open>The concrete run\<close>

lemma scenario_keys:
  "alertKeyOf ''motor1'' scenarioTemperature = ''motor1-temperature''"
  "alertKeyOf ''motor1'' scenarioOil = ''motor1-oil_pressure''"
  by (simp_all add: alertKeyOf_def scenarioTemperature_def scenarioOil_def)

lemma scenario_severities:
  "fst (evaluateThreshold f n scenarioTemperature 110) = Critical"
  "fst (evaluateThreshold f n scenarioTemperature 106) = Critical"
  "fst (evaluateThreshold f n scenarioTemperature 70) = Normal"
  "fst (evaluateThreshold f n scenarioOil 10) = Warning"
  "fst (evaluateThreshold f n scenarioOil 45) = Normal"
  by (simp_all add: evaluateThreshold_def scenarioTemperature_def scenarioOil_def)

lemma scenario_thresholds:
  "critical scenarioTemperature = Some 105" "criticalLow scenarioTemperature = None"
  "normalMax scenarioTemperature = 95" "normalMin scenarioTemperature = 60"
  "critical scenarioOil = None" "criticalLow scenarioOil = Some 5"
  "normalMax scenarioOil = 65" "normalMin scenarioOil = 30"
  by (simp_all add: scenarioTemperature_def scenarioOil_def)

lemma hysteresisSkips_first: "\<not> hysteresisSkips None v x"
  by (simp add: hysteresisSkips_def)

text \<open>The hysteresis guard at the readings of the concrete runs.\<close>

lemma scenario_hysteresis:
  "\<not> hysteresisSkips (Some 45) scenarioOil 10"
  "\<not> hysteresisSkips (Some 10) scenarioOil 45"
  "\<not> hysteresisSkips (Some 110) scenarioTemperature 70"
  "\<not> hysteresisSkips (Some 110) scenarioTemperature 106"
  "hysteresisSkips (Some 110) scenarioTemperature 111"
  "\<not> hysteresisSkips (Some (toDouble (2 / 10))) scenarioOil (3 / 2)"
  unfolding hysteresisSkips_def option.case scenario_thresholds band_65 band_95
    difference_1_5_0_2
  by (simp_all add: double_integers no_overflow)

lemma alarmState_eq:
  "alarmState =
    \<lparr>activeAlerts =
       [(''motor1-temperature'', newAlert ''a'' (breachData scenarioEnv ''motor1'' scenarioTemperature 110))],
     alertHistory =
       newAlert ''a'' (breachData scenarioEnv ''motor1'' scenarioTemperature 110) # demoAlerts 0,
     maxHistory = 100,
     lastCheckedValues = [(''motor1-temperature'', 110)]\<rparr>"
proof -
  let ?c = "constructor 0"
  have c: "?c = \<lparr>activeAlerts = [], alertHistory = demoAlerts 0, maxHistory = 100,
      lastCheckedValues = []\<rparr>"
    by (simp add: constructor_def initialize_def loadDemoHistory_def)
  have skip: "\<not> hysteresisSkips (map_of (lastCheckedValues ?c)
      (alertKeyOf ''motor1'' scenarioTemperature)) scenarioTemperature 110"
    by (simp add: c hysteresisSkips_first)
  have sev: "fst (evaluateThreshold (toFixed1 scenarioEnv) (motorNameOf ''motor1'')
      scenarioTemperature 110) \<noteq> Normal"
    by (simp add: scenario_severities)
  have len: "length (demoAlerts 0) = 2" by (simp add: demoAlerts_def)
  show ?thesis
    unfolding alarmState_def checkThreshold_breach [OF skip sev]
    by (simp add: handleAlert_new breachData_fields scenario_keys c len scenarioEnv_def)
qed


lemma flap_step:
  assumes mh: "maxHistory s = 100"
    and len: "length (alertHistory s) \<le> 100"
    and act: "map_of (activeAlerts s) ''motor1-oil_pressure'' = None"
    and last: "map_of (lastCheckedValues s) ''motor1-oil_pressure'' = None \<or>
      map_of (lastCheckedValues s) ''motor1-oil_pressure'' = Some 45"
  shows "\<exists>a. alert_key a = ''motor1-oil_pressure'' \<and> alert_id a = replicate (Suc i) CHR ''b'' \<and>
      flap i s =
        s\<lparr>lastCheckedValues :=
            AList.update ''motor1-oil_pressure'' 45
              (AList.update ''motor1-oil_pressure'' 10 (lastCheckedValues s)),
          alertHistory := take 100 (a # alertHistory s)\<rparr>"
proof -
  let ?k = "''motor1-oil_pressure''"
  let ?e = "flapEnv i"
  let ?n = "newAlert (uuid ?e) (breachData ?e ''motor1'' scenarioOil 10)"
  let ?s0 = "s\<lparr>lastCheckedValues := AList.update ?k 10 (lastCheckedValues s)\<rparr>"
  let ?s1 = "checkThreshold ?e ''motor1'' scenarioOil 10 s"
  have nmax: "normalMax scenarioOil = 65" by (simp add: scenarioOil_def)
  have skip1: "\<not> hysteresisSkips (map_of (lastCheckedValues s)
      (alertKeyOf ''motor1'' scenarioOil)) scenarioOil 10"
    using last by (auto simp: scenario_keys scenario_hysteresis hysteresisSkips_first)
  have sev1: "fst (evaluateThreshold (toFixed1 ?e) (motorNameOf ''motor1'') scenarioOil 10)
      \<noteq> Normal"
    by (simp add: scenario_severities)
  have key: "alert_key (breachData ?e ''motor1'' scenarioOil 10) = ?k"
    by (simp add: breachData_fields scenario_keys)
  have "?s1 = handleAlert (uuid ?e) (breachData ?e ''motor1'' scenarioOil 10) ?s0"
    using checkThreshold_breach [OF skip1 sev1] by (simp add: scenario_keys)
  also have "\<dots> = ?s0\<lparr>activeAlerts := AList.update ?k ?n (activeAlerts s),
      alertHistory := take 100 (?n # alertHistory s)\<rparr>"
    using act len
    by (cases "length (alertHistory s) = 100")
       (simp_all add: handleAlert_new key mh butlast_conv_take)
  finally have s1: "?s1 = ?s0\<lparr>activeAlerts := AList.update ?k ?n (activeAlerts s),
      alertHistory := take 100 (?n # alertHistory s)\<rparr>" .
  have skip2: "\<not> hysteresisSkips (map_of (lastCheckedValues ?s1)
      (alertKeyOf ''motor1'' scenarioOil)) scenarioOil 45"
    by (simp add: s1 scenario_keys scenario_hysteresis update_conv')
  have sev2: "fst (evaluateThreshold (toFixed1 ?e) (motorNameOf ''motor1'') scenarioOil 45)
      = Normal"
    by (simp add: scenario_severities)
  let ?m = "?n\<lparr>resolved := True, resolvedAt := Some (now ?e)\<rparr>"
  have "flap i s = resolveAlertByKey (now ?e) ?k
      (?s1\<lparr>lastCheckedValues := AList.update ?k 45 (lastCheckedValues ?s1)\<rparr>)"
    unfolding flap_def using checkThreshold_normal [OF skip2 sev2]
    by (simp add: scenario_keys)
  also have "\<dots> = s\<lparr>lastCheckedValues :=
        AList.update ?k 45 (AList.update ?k 10 (lastCheckedValues s)),
      alertHistory := take 100 (?m # alertHistory s)\<rparr>"
    using act
    by (simp add: s1 resolveAlertByKey_def update_conv' delete_update_same delete_absent
          newAlert_fields key)
  finally have "flap i s = s\<lparr>lastCheckedValues :=
        AList.update ?k 45 (AList.update ?k 10 (lastCheckedValues s)),
      alertHistory := take 100 (?m # alertHistory s)\<rparr>" .
  moreover have "alert_key ?m = ?k" by (simp add: newAlert_fields key)
  moreover have "alert_id ?m = replicate (Suc i) CHR ''b''"
    by (simp add: newAlert_fields flapEnv_def)
  ultimately show ?thesis by blast
qed

text \<open>
  After \<open>n\<close> such excursions the history is the \<open>n\<close> oil pressure records, newest
  first, in front of the earlier history, cut to the capacity; nothing else has changed
  but the last checked oil pressure.
\<close>

lemma flaps_steps:
  assumes mh: "maxHistory s = 100"
    and len: "length (alertHistory s) \<le> 100"
    and act: "map_of (activeAlerts s) ''motor1-oil_pressure'' = None"
    and last: "map_of (lastCheckedValues s) ''motor1-oil_pressure'' = None"
  shows "\<exists>as l. length as = n \<and>
      (\<forall>a \<in> set as. alert_key a = ''motor1-oil_pressure'' \<and> hd (alert_id a) = CHR ''b'') \<and>
      (n = 0 \<or> map_of l ''motor1-oil_pressure'' = Some 45) \<and>
      (n = 0 \<longrightarrow> l = lastCheckedValues s) \<and>
      map_of l ''motor1-temperature'' = map_of (lastCheckedValues s) ''motor1-temperature'' \<and>
      flaps n s = s\<lparr>lastCheckedValues := l, alertHistory := take 100 (as @ alertHistory s)\<rparr>"
proof (induction n)
  case 0
  show ?case using len by (intro exI [of _ "[]"] exI [of _ "lastCheckedValues s"]) simp
next
  case (Suc n)
  then obtain as l where as: "length as = n"
    and keys: "\<forall>a \<in> set as. alert_key a = ''motor1-oil_pressure'' \<and> hd (alert_id a) = CHR ''b''"
    and l: "n = 0 \<or> map_of l ''motor1-oil_pressure'' = Some 45"
    and l0: "n = 0 \<longrightarrow> l = lastCheckedValues s"
    and lt: "map_of l ''motor1-temperature'' = map_of (lastCheckedValues s) ''motor1-temperature''"
    and st: "flaps n s = s\<lparr>lastCheckedValues := l,
      alertHistory := take 100 (as @ alertHistory s)\<rparr>"
    by blast
  let ?t = "flaps n s"
  have 1: "maxHistory ?t = 100" by (simp add: st mh)
  have 2: "length (alertHistory ?t) \<le> 100" by (simp add: st)
  have 3: "map_of (activeAlerts ?t) ''motor1-oil_pressure'' = None" by (simp add: st act)
  have 4: "map_of (lastCheckedValues ?t) ''motor1-oil_pressure'' = None \<or>
      map_of (lastCheckedValues ?t) ''motor1-oil_pressure'' = Some 45"
    using l l0 last by (auto simp: st)
  from flap_step [OF 1 2 3 4, of n] obtain a where a: "alert_key a = ''motor1-oil_pressure''"
    and aid: "alert_id a = replicate (Suc n) CHR ''b''"
    and fl: "flap n ?t = ?t\<lparr>lastCheckedValues :=
        AList.update ''motor1-oil_pressure'' 45
          (AList.update ''motor1-oil_pressure'' 10 (lastCheckedValues ?t)),
        alertHistory := take 100 (a # alertHistory ?t)\<rparr>"
    by blast
  let ?l = "AList.update ''motor1-oil_pressure'' 45 (AList.update ''motor1-oil_pressure'' 10 l)"
  have tk: "take 100 (a # take 100 (as @ alertHistory s)) = take 100 ((a # as) @ alertHistory s)"
    by (simp add: take_Cons' min_def)
  have "flaps (Suc n) s = s\<lparr>lastCheckedValues := ?l,
      alertHistory := take 100 ((a # as) @ alertHistory s)\<rparr>"
    using fl tk by (simp add: st)
  moreover have "length (a # as) = Suc n" using as by simp
  moreover have "\<forall>x \<in> set (a # as). alert_key x = ''motor1-oil_pressure'' \<and>
      hd (alert_id x) = CHR ''b''"
    using keys a aid by simp
  moreover have "map_of ?l ''motor1-oil_pressure'' = Some 45" by (simp add: update_conv')
  moreover have "map_of ?l ''motor1-temperature'' =
      map_of (lastCheckedValues s) ''motor1-temperature''"
    using lt by (simp add: update_conv')
  ultimately show ?case by blast
qed

lemma alarmState_reachable: "am_reachable alarmState"
  unfolding alarmState_def by (intro am_reachable.intros)

lemma flaps_reachable: "am_reachable s \<Longrightarrow> am_reachable (flaps n s)"
  by (induction n) (simp_all add: flap_def am_reachable.intros)

lemma evictedState_reachable: "am_reachable evictedState"
  unfolding evictedState_def by (rule flaps_reachable [OF alarmState_reachable])

text \<open>
  In the state reached, the temperature alert \<open>a\<close> is still active, the history is full
  and every record in it is an oil pressure record: the record of the temperature alert
  has been evicted.
\<close>

lemma evictedState_facts:
  "map_of (activeAlerts evictedState) ''motor1-temperature'' =
     Some (newAlert ''a'' (breachData scenarioEnv ''motor1'' scenarioTemperature 110))"
  "map_of (lastCheckedValues evictedState) ''motor1-temperature'' = Some 110"
  "map_of (activeAlerts evictedState) ''motor1-oil_pressure'' = None"
  "length (alertHistory evictedState) = 100"
  "maxHistory evictedState = 100"
  "\<forall>a \<in> set (alertHistory evictedState).
     alert_key a = ''motor1-oil_pressure'' \<and> hd (alert_id a) = CHR ''b''"
proof -
  have mh: "maxHistory alarmState = 100" by (simp add: alarmState_eq)
  have len: "length (alertHistory alarmState) \<le> 100" by (simp add: alarmState_eq demoAlerts_def)
  have act: "map_of (activeAlerts alarmState) ''motor1-oil_pressure'' = None"
    by (simp add: alarmState_eq)
  have last: "map_of (lastCheckedValues alarmState) ''motor1-oil_pressure'' = None"
    by (simp add: alarmState_eq)
  from flaps_steps [OF mh len act last, of 100] obtain as l where as: "length as = 100"
    and keys: "\<forall>a \<in> set as. alert_key a = ''motor1-oil_pressure'' \<and> hd (alert_id a) = CHR ''b''"
    and lt: "map_of l ''motor1-temperature'' =
      map_of (lastCheckedValues alarmState) ''motor1-temperature''"
    and st: "evictedState = alarmState\<lparr>lastCheckedValues := l,
      alertHistory := take 100 (as @ alertHistory alarmState)\<rparr>"
    unfolding evictedState_def by blast
  have h: "alertHistory evictedState = as" by (simp add: st as)
  show "map_of (activeAlerts evictedState) ''motor1-temperature'' =
     Some (newAlert ''a'' (breachData scenarioEnv ''motor1'' scenarioTemperature 110))"
    by (simp add: st alarmState_eq)
  show "map_of (lastCheckedValues evictedState) ''motor1-temperature'' = Some 110"
    by (simp add: st lt alarmState_eq)
  show "map_of (activeAlerts evictedState) ''motor1-oil_pressure'' = None"
    by (simp add: st alarmState_eq)
  show "length (alertHistory evictedState) = 100" by (simp add: h as)
  show "maxHistory evictedState = 100" by (simp add: st mh)
  show "\<forall>a \<in> set (alertHistory evictedState).
     alert_key a = ''motor1-oil_pressure'' \<and> hd (alert_id a) = CHR ''b''"
    using keys by (simp add: h)
qed


subsection \<open>Claims about the alert manager\<close>

text \<open>
  C1.  When a reading passes the hysteresis filter, \<^verbatim>\<open>checkThreshold\<close> takes the first rule
  that matches, in this order: critical defined and value at or above it gives critical;
  else critical low defined and value at or below it gives critical; else value above the
  normal maximum gives warning; else value below the normal minimum gives warning; else
  the severity is normal.  The severity chosen is the severity of the active alert that
  the call leaves under the key; in the normal case the call leaves no active alert under
  the key and adds no record to the history.
\<close>

theorem C1_severity_precedence:
  assumes "\<not> hysteresisSkips (map_of (lastCheckedValues s) (alertKeyOf mid v)) v x"
  shows
    "fst (evaluateThreshold (toFixed1 e) (motorNameOf mid) v x) =
       (if critical v \<noteq> None \<and> x \<ge> the (critical v) then Critical
        else if criticalLow v \<noteq> None \<and> x \<le> the (criticalLow v) then Critical
        else if x > normalMax v then Warning
        else if x < normalMin v then Warning
        else Normal) \<and>
     activeSeverity (checkThreshold e mid v x s) (alertKeyOf mid v) =
       (if critical v \<noteq> None \<and> x \<ge> the (critical v) then Some Critical
        else if criticalLow v \<noteq> None \<and> x \<le> the (criticalLow v) then Some Critical
        else if x > normalMax v then Some Warning
        else if x < normalMin v then Some Warning
        else None) \<and>
     (fst (evaluateThreshold (toFixed1 e) (motorNameOf mid) v x) = Normal \<longrightarrow>
        activeAlerts (checkThreshold e mid v x s) =
          AList.delete (alertKeyOf mid v) (activeAlerts s) \<and>
        length (alertHistory (checkThreshold e mid v x s)) = length (alertHistory s))"
proof -
  let ?sev = "fst (evaluateThreshold (toFixed1 e) (motorNameOf mid) v x)"
  let ?k = "alertKeyOf mid v"
  let ?s0 = "s\<lparr>lastCheckedValues := AList.update ?k x (lastCheckedValues s)\<rparr>"
  have sev: "?sev =
       (if critical v \<noteq> None \<and> x \<ge> the (critical v) then Critical
        else if criticalLow v \<noteq> None \<and> x \<le> the (criticalLow v) then Critical
        else if x > normalMax v then Warning
        else if x < normalMin v then Warning
        else Normal)"
    by (simp add: evaluateThreshold_def)
  have act: "activeSeverity (checkThreshold e mid v x s) ?k =
      (if ?sev = Normal then None else Some ?sev)"
  proof (cases "?sev = Normal")
    case True
    then show ?thesis
      by (simp add: checkThreshold_normal [OF assms True] activeSeverity_resolveAlertByKey)
  next
    case False
    have "activeSeverity (handleAlert (uuid e) (breachData e mid v x) ?s0)
        (alert_key (breachData e mid v x)) = Some (severity (breachData e mid v x))"
      by (rule activeSeverity_handleAlert)
    with False show ?thesis
      by (simp add: checkThreshold_breach [OF assms False] breachData_fields)
  qed
  have nrm: "?sev = Normal \<longrightarrow>
      activeAlerts (checkThreshold e mid v x s) = AList.delete ?k (activeAlerts s) \<and>
      length (alertHistory (checkThreshold e mid v x s)) = length (alertHistory s)"
  proof
    assume n: "?sev = Normal"
    show "activeAlerts (checkThreshold e mid v x s) = AList.delete ?k (activeAlerts s) \<and>
      length (alertHistory (checkThreshold e mid v x s)) = length (alertHistory s)"
      by (cases "map_of (activeAlerts s) ?k")
         (simp_all add: checkThreshold_normal [OF assms n] resolveAlertByKey_def
            delete_absent length_markResolved)
  qed
  have "(if ?sev = Normal then None else Some ?sev) =
       (if critical v \<noteq> None \<and> x \<ge> the (critical v) then Some Critical
        else if criticalLow v \<noteq> None \<and> x \<le> the (criticalLow v) then Some Critical
        else if x > normalMax v then Some Warning
        else if x < normalMin v then Some Warning
        else None)"
    unfolding sev by simp
  with act sev nrm show ?thesis by simp
qed

theorem C1_severity_precedence_witness:
  "activeSeverity (checkThreshold scenarioEnv ''motor1'' scenarioTemperature 110 (constructor 0))
     ''motor1-temperature'' = Some Critical \<and>
   activeSeverity (checkThreshold scenarioEnv ''motor1'' scenarioOil 10 (constructor 0))
     ''motor1-oil_pressure'' = Some Warning \<and>
   activeSeverity (checkThreshold scenarioEnv ''motor1'' scenarioTemperature 70 alarmState)
     ''motor1-temperature'' = None \<and>
   length (alertHistory (checkThreshold scenarioEnv ''motor1'' scenarioTemperature 70 alarmState))
     = 3"
proof -
  have c: "lastCheckedValues (constructor 0) = []"
    by (simp add: constructor_def initialize_def loadDemoHistory_def)
  have h1: "\<not> hysteresisSkips (map_of (lastCheckedValues (constructor 0))
      (alertKeyOf ''motor1'' scenarioTemperature)) scenarioTemperature 110"
    by (simp add: c hysteresisSkips_first)
  have h2: "\<not> hysteresisSkips (map_of (lastCheckedValues (constructor 0))
      (alertKeyOf ''motor1'' scenarioOil)) scenarioOil 10"
    by (simp add: c hysteresisSkips_first)
  have h3: "\<not> hysteresisSkips (map_of (lastCheckedValues alarmState)
      (alertKeyOf ''motor1'' scenarioTemperature)) scenarioTemperature 70"
    by (simp add: alarmState_eq scenario_keys scenario_hysteresis)
  have l: "length (alertHistory alarmState) = 3"
    by (simp add: alarmState_eq demoAlerts_def)
  show ?thesis
    using C1_severity_precedence [OF h1, of scenarioEnv]
      C1_severity_precedence [OF h2, of scenarioEnv]
      C1_severity_precedence [OF h3, of scenarioEnv]
    by (simp add: scenario_keys scenario_severities l scenario_thresholds)
qed

text \<open>
  C2 (as the code has it).  If a value \<open>prior\<close> is recorded for the key and the guard
  holds as JavaScript computes it in double precision, that is, the rounded difference
  \<open>value - prior\<close> does not overflow and its absolute value is below the rounded
  product of the normal maximum and the double \<^verbatim>\<open>0.02\<close>, then \<^verbatim>\<open>checkThreshold\<close> returns at
  once: the whole state (active alerts, history, recorded last values) is unchanged.  If
  no value is recorded for the key, the evaluation proceeds: the value is recorded and the
  outcome is the one of the threshold rules.
\<close>

theorem C2_hysteresis:
  "(\<forall>prior. map_of (lastCheckedValues s) (alertKeyOf mid v) = Some prior \<and>
       \<not> overflows (x - prior) \<and>
       \<bar>toDouble (x - prior)\<bar> < toDouble (normalMax v * toDouble (2 / 100)) \<longrightarrow>
       checkThreshold e mid v x s = s) \<and>
   (map_of (lastCheckedValues s) (alertKeyOf mid v) = None \<longrightarrow>
      map_of (lastCheckedValues (checkThreshold e mid v x s)) (alertKeyOf mid v) = Some x \<and>
      activeSeverity (checkThreshold e mid v x s) (alertKeyOf mid v) =
        (if fst (evaluateThreshold (toFixed1 e) (motorNameOf mid) v x) = Normal then None
         else Some (fst (evaluateThreshold (toFixed1 e) (motorNameOf mid) v x))))"
proof (intro conjI allI impI)
  fix prior
  assume "map_of (lastCheckedValues s) (alertKeyOf mid v) = Some prior \<and>
       \<not> overflows (x - prior) \<and>
       \<bar>toDouble (x - prior)\<bar> < toDouble (normalMax v * toDouble (2 / 100))"
  then have "hysteresisSkips (map_of (lastCheckedValues s) (alertKeyOf mid v)) v x"
    by (simp add: hysteresisSkips_def)
  then show "checkThreshold e mid v x s = s" by (rule checkThreshold_skipped)
next
  let ?sev = "fst (evaluateThreshold (toFixed1 e) (motorNameOf mid) v x)"
  let ?k = "alertKeyOf mid v"
  assume none: "map_of (lastCheckedValues s) ?k = None"
  then have skip: "\<not> hysteresisSkips (map_of (lastCheckedValues s) ?k) v x"
    by (simp add: hysteresisSkips_first)
  show "map_of (lastCheckedValues (checkThreshold e mid v x s)) ?k = Some x"
    by (rule checkThreshold_records [OF skip])
  show "activeSeverity (checkThreshold e mid v x s) ?k =
      (if ?sev = Normal then None else Some ?sev)"
  proof (cases "?sev = Normal")
    case True
    then show ?thesis
      by (simp add: checkThreshold_normal [OF skip True] activeSeverity_resolveAlertByKey)
  next
    case False
    have "activeSeverity (handleAlert (uuid e) (breachData e mid v x)
        (s\<lparr>lastCheckedValues := AList.update ?k x (lastCheckedValues s)\<rparr>))
        (alert_key (breachData e mid v x)) = Some (severity (breachData e mid v x))"
      by (rule activeSeverity_handleAlert)
    with False show ?thesis
      by (simp add: checkThreshold_breach [OF skip False] breachData_fields)
  qed
qed

theorem C2_hysteresis_witness:
  "checkThreshold scenarioEnv ''motor1'' scenarioTemperature 111 alarmState = alarmState \<and>
   map_of (lastCheckedValues
     (checkThreshold scenarioEnv ''motor1'' scenarioTemperature 110 (constructor 0)))
     ''motor1-temperature'' = Some 110 \<and>
   activeSeverity (checkThreshold scenarioEnv ''motor1'' scenarioTemperature 110 (constructor 0))
     ''motor1-temperature'' = Some Critical"
proof -
  have c: "lastCheckedValues (constructor 0) = []"
    by (simp add: constructor_def initialize_def loadDemoHistory_def)
  have g: "\<not> overflows (111 - 110) \<and>
      \<bar>toDouble (111 - 110)\<bar> < toDouble (normalMax scenarioTemperature * toDouble (2 / 100))"
    unfolding scenario_thresholds band_95 by (simp add: double_integers no_overflow)
  have a: "map_of (lastCheckedValues alarmState) (alertKeyOf ''motor1'' scenarioTemperature)
      = Some 110"
    by (simp add: alarmState_eq scenario_keys)
  have b: "map_of (lastCheckedValues (constructor 0))
      (alertKeyOf ''motor1'' scenarioTemperature) = None"
    by (simp add: c)
  from C2_hysteresis [of alarmState "''motor1''" scenarioTemperature 111 scenarioEnv] a g
  have 1: "checkThreshold scenarioEnv ''motor1'' scenarioTemperature 111 alarmState = alarmState"
    by blast
  from C2_hysteresis [of "constructor 0" "''motor1''" scenarioTemperature 110 scenarioEnv] b
  have 2: "map_of (lastCheckedValues
        (checkThreshold scenarioEnv ''motor1'' scenarioTemperature 110 (constructor 0)))
        (alertKeyOf ''motor1'' scenarioTemperature) = Some 110 \<and>
      activeSeverity (checkThreshold scenarioEnv ''motor1'' scenarioTemperature 110 (constructor 0))
        (alertKeyOf ''motor1'' scenarioTemperature) =
        (if fst (evaluateThreshold (toFixed1 scenarioEnv) (motorNameOf ''motor1'')
              scenarioTemperature 110) = Normal then None
         else Some (fst (evaluateThreshold (toFixed1 scenarioEnv) (motorNameOf ''motor1'')
              scenarioTemperature 110)))"
    by blast
  from 1 2 show ?thesis
    by (simp add: scenario_keys scenario_severities)
qed

text \<open>
  C2 as stated, with the inequality read in exact arithmetic, fails.  The recorded oil
  pressure of motor 1 is the double \<^verbatim>\<open>0.2\<close>, which lies a little above 2/10; the new
  reading is \<^verbatim>\<open>1.5\<close>; the normal maximum is 65.  Exactly, the difference is below
  \<open>0.02 * 65 = 1.3\<close>.  In double precision the difference and the product round to the
  same double, the guard is false, and the reading is evaluated: it is recorded as the
  last value and the state changes.
\<close>

theorem C2_counterexample:
  "am_reachable lowOilState \<and>
   map_of (lastCheckedValues lowOilState) (alertKeyOf ''motor1'' scenarioOil)
     = Some (toDouble (2 / 10)) \<and>
   \<bar>3 / 2 - toDouble (2 / 10)\<bar> < (2 / 100) * normalMax scenarioOil \<and>
   toDouble (3 / 2 - toDouble (2 / 10)) = toDouble (normalMax scenarioOil * toDouble (2 / 100)) \<and>
   map_of (lastCheckedValues (checkThreshold scenarioEnv ''motor1'' scenarioOil (3 / 2) lowOilState))
     (alertKeyOf ''motor1'' scenarioOil) = Some (3 / 2) \<and>
   checkThreshold scenarioEnv ''motor1'' scenarioOil (3 / 2) lowOilState \<noteq> lowOilState"
proof -
  let ?k = "alertKeyOf ''motor1'' scenarioOil"
  have c: "lastCheckedValues (constructor 0) = []"
    by (simp add: constructor_def initialize_def loadDemoHistory_def)
  have r: "am_reachable lowOilState"
    unfolding lowOilState_def by (intro am_reachable.intros)
  have first: "\<not> hysteresisSkips (map_of (lastCheckedValues (constructor 0)) ?k)
      scenarioOil (toDouble (2 / 10))"
    by (simp add: c hysteresisSkips_first)
  have rec: "map_of (lastCheckedValues lowOilState) ?k = Some (toDouble (2 / 10))"
    unfolding lowOilState_def by (rule checkThreshold_records [OF first])
  have ex: "\<bar>3 / 2 - toDouble (2 / 10)\<bar> < (2 / 100) * normalMax scenarioOil"
    unfolding double_0_2 scenario_thresholds by simp
  have eq: "toDouble (3 / 2 - toDouble (2 / 10)) =
      toDouble (normalMax scenarioOil * toDouble (2 / 100))"
    unfolding scenario_thresholds band_65 difference_1_5_0_2 by simp
  have skip: "\<not> hysteresisSkips (map_of (lastCheckedValues lowOilState) ?k) scenarioOil (3 / 2)"
    unfolding rec by (rule scenario_hysteresis)
  have new: "map_of (lastCheckedValues
      (checkThreshold scenarioEnv ''motor1'' scenarioOil (3 / 2) lowOilState)) ?k = Some (3 / 2)"
    by (rule checkThreshold_records [OF skip])
  have ne: "toDouble (2 / 10) \<noteq> 3 / 2"
    unfolding double_0_2 by simp
  have "checkThreshold scenarioEnv ''motor1'' scenarioOil (3 / 2) lowOilState \<noteq> lowOilState"
  proof
    assume "checkThreshold scenarioEnv ''motor1'' scenarioOil (3 / 2) lowOilState = lowOilState"
    with new rec have "Some (toDouble (2 / 10)) = Some (3 / 2 :: real)" by simp
    with ne show False by simp
  qed
  with r rec ex eq new show ?thesis by simp
qed


text \<open>
  C3.  In every reachable state the active map has one entry per key and each active
  alert carries the key it is stored under.  When a check that passes the hysteresis
  filter finds a severity other than normal: if an alert is active under the key, that
  record gets the new value, severity, message and timestamp and its update counter goes
  up by one, the keys of the active map and the history stay as they are; if none is
  active, one record with update counter 1 is added at the end of the active map and at
  the front of the history (cut to the capacity).
\<close>

theorem C3_one_alert_per_key:
  assumes "am_reachable s"
  shows
    "distinct (map fst (activeAlerts s)) \<and>
     (\<forall>(k, a) \<in> set (activeAlerts s). alert_key a = k) \<and>
     (\<forall>e mid v x.
        \<not> hysteresisSkips (map_of (lastCheckedValues s) (alertKeyOf mid v)) v x \<and>
        fst (evaluateThreshold (toFixed1 e) (motorNameOf mid) v x) \<noteq> Normal \<longrightarrow>
        (case map_of (activeAlerts s) (alertKeyOf mid v) of
           Some a \<Rightarrow>
             (\<exists>n. updateCount a = Some n \<and>
                activeAlerts (checkThreshold e mid v x s) =
                  AList.update (alertKeyOf mid v)
                    (a\<lparr>alert_value := toFixed1 e x,
                       severity := fst (evaluateThreshold (toFixed1 e) (motorNameOf mid) v x),
                       message := snd (evaluateThreshold (toFixed1 e) (motorNameOf mid) v x),
                       timestamp := now e,
                       updateCount := Some (n + 1)\<rparr>)
                    (activeAlerts s)) \<and>
             map fst (activeAlerts (checkThreshold e mid v x s)) = map fst (activeAlerts s) \<and>
             alertHistory (checkThreshold e mid v x s) = alertHistory s
         | None \<Rightarrow>
             activeAlerts (checkThreshold e mid v x s) =
               activeAlerts s @ [(alertKeyOf mid v, newAlert (uuid e) (breachData e mid v x))] \<and>
             updateCount (newAlert (uuid e) (breachData e mid v x)) = Some 1 \<and>
             alertHistory (checkThreshold e mid v x s) =
               take 100 (newAlert (uuid e) (breachData e mid v x) # alertHistory s)))"
proof -
  from assms have inv: "am_inv s" by (rule am_reachable_inv)
  then have keys: "inv_keys s" and hist: "inv_hist s" by (simp_all add: am_inv_def)
  from keys have d: "distinct (map fst (activeAlerts s))" by (simp add: inv_keys_def)
  have k: "\<forall>(k, a) \<in> set (activeAlerts s). alert_key a = k"
  proof (clarify)
    fix k a
    assume "(k, a) \<in> set (activeAlerts s)"
    with d have "map_of (activeAlerts s) k = Some a" by simp
    with keys show "alert_key a = k" by (simp add: inv_keys_def)
  qed
  have u: "\<forall>e mid v x.
        \<not> hysteresisSkips (map_of (lastCheckedValues s) (alertKeyOf mid v)) v x \<and>
        fst (evaluateThreshold (toFixed1 e) (motorNameOf mid) v x) \<noteq> Normal \<longrightarrow>
        (case map_of (activeAlerts s) (alertKeyOf mid v) of
           Some a \<Rightarrow>
             (\<exists>n. updateCount a = Some n \<and>
                activeAlerts (checkThreshold e mid v x s) =
                  AList.update (alertKeyOf mid v)
                    (a\<lparr>alert_value := toFixed1 e x,
                       severity := fst (evaluateThreshold (toFixed1 e) (motorNameOf mid) v x),
                       message := snd (evaluateThreshold (toFixed1 e) (motorNameOf mid) v x),
                       timestamp := now e,
                       updateCount := Some (n + 1)\<rparr>)
                    (activeAlerts s)) \<and>
             map fst (activeAlerts (checkThreshold e mid v x s)) = map fst (activeAlerts s) \<and>
             alertHistory (checkThreshold e mid v x s) = alertHistory s
         | None \<Rightarrow>
             activeAlerts (checkThreshold e mid v x s) =
               activeAlerts s @ [(alertKeyOf mid v, newAlert (uuid e) (breachData e mid v x))] \<and>
             updateCount (newAlert (uuid e) (breachData e mid v x)) = Some 1 \<and>
             alertHistory (checkThreshold e mid v x s) =
               take 100 (newAlert (uuid e) (breachData e mid v x) # alertHistory s))"
  proof (intro allI impI, elim conjE)
    fix e mid v x
    let ?k = "alertKeyOf mid v"
    let ?d = "breachData e mid v x"
    let ?s0 = "s\<lparr>lastCheckedValues := AList.update ?k x (lastCheckedValues s)\<rparr>"
    assume skip: "\<not> hysteresisSkips (map_of (lastCheckedValues s) ?k) v x"
      and sev: "fst (evaluateThreshold (toFixed1 e) (motorNameOf mid) v x) \<noteq> Normal"
    have ct: "checkThreshold e mid v x s = handleAlert (uuid e) ?d ?s0"
      by (rule checkThreshold_breach [OF skip sev])
    show "case map_of (activeAlerts s) ?k of
           Some a \<Rightarrow>
             (\<exists>n. updateCount a = Some n \<and>
                activeAlerts (checkThreshold e mid v x s) =
                  AList.update ?k
                    (a\<lparr>alert_value := toFixed1 e x,
                       severity := fst (evaluateThreshold (toFixed1 e) (motorNameOf mid) v x),
                       message := snd (evaluateThreshold (toFixed1 e) (motorNameOf mid) v x),
                       timestamp := now e,
                       updateCount := Some (n + 1)\<rparr>)
                    (activeAlerts s)) \<and>
             map fst (activeAlerts (checkThreshold e mid v x s)) = map fst (activeAlerts s) \<and>
             alertHistory (checkThreshold e mid v x s) = alertHistory s
         | None \<Rightarrow>
             activeAlerts (checkThreshold e mid v x s) =
               activeAlerts s @ [(?k, newAlert (uuid e) ?d)] \<and>
             updateCount (newAlert (uuid e) ?d) = Some 1 \<and>
             alertHistory (checkThreshold e mid v x s) =
               take 100 (newAlert (uuid e) ?d # alertHistory s)"
    proof (cases "map_of (activeAlerts s) ?k")
      case None
      from hist have mh: "maxHistory s = 100" and len: "length (alertHistory s) \<le> 100"
        by (simp_all add: inv_hist_def)
      from None have n0: "map_of (activeAlerts ?s0) (alert_key ?d) = None"
        by (simp add: breachData_fields)
      have "alertHistory (handleAlert (uuid e) ?d ?s0) =
          take 100 (newAlert (uuid e) ?d # alertHistory s)"
        using len
        by (cases "length (alertHistory s) = 100")
           (simp_all add: handleAlert_new [OF n0] mh butlast_conv_take)
      moreover have "activeAlerts (handleAlert (uuid e) ?d ?s0) =
          activeAlerts s @ [(?k, newAlert (uuid e) ?d)]"
        using None by (simp add: handleAlert_new [OF n0] breachData_fields update_absent)
      ultimately show ?thesis using None by (simp add: ct newAlert_fields)
    next
      case (Some a)
      with keys have "updateCount a \<noteq> None"
        unfolding inv_keys_def by blast
      then obtain n where n: "updateCount a = Some n" by blast
      from Some have s0: "map_of (activeAlerts ?s0) (alert_key ?d) = Some a"
        by (simp add: breachData_fields)
      from Some have mem: "?k \<in> fst ` set (activeAlerts s)"
        by (rule map_of_SomeD [THEN imageI [where f = fst], simplified])
      have "map fst (activeAlerts (handleAlert (uuid e) ?d ?s0)) = map fst (activeAlerts s)"
        using mem by (simp add: handleAlert_existing [OF s0] breachData_fields update_keys)
      then show ?thesis
        using Some n by (simp add: ct handleAlert_existing [OF s0] breachData_fields)
    qed
  qed
  from d k u show ?thesis by blast
qed

theorem C3_one_alert_per_key_witness:
  "distinct (map fst (activeAlerts alarmState)) \<and>
   map fst (activeAlerts (checkThreshold scenarioEnv ''motor1'' scenarioTemperature 106 alarmState))
     = [''motor1-temperature''] \<and>
   map_option updateCount
     (map_of (activeAlerts (checkThreshold scenarioEnv ''motor1'' scenarioTemperature 106 alarmState))
        ''motor1-temperature'') = Some (Some 2) \<and>
   alertHistory (checkThreshold scenarioEnv ''motor1'' scenarioTemperature 106 alarmState)
     = alertHistory alarmState \<and>
   map fst (activeAlerts (checkThreshold scenarioEnv ''motor1'' scenarioOil 10 alarmState))
     = [''motor1-temperature'', ''motor1-oil_pressure''] \<and>
   length (alertHistory (checkThreshold scenarioEnv ''motor1'' scenarioOil 10 alarmState)) = 4"
proof -
  have h1: "\<not> hysteresisSkips (map_of (lastCheckedValues alarmState)
      (alertKeyOf ''motor1'' scenarioTemperature)) scenarioTemperature 106"
    by (simp add: alarmState_eq scenario_keys scenario_hysteresis)
  have h2: "\<not> hysteresisSkips (map_of (lastCheckedValues alarmState)
      (alertKeyOf ''motor1'' scenarioOil)) scenarioOil 10"
    by (simp add: alarmState_eq scenario_keys hysteresisSkips_first)
  have a: "map_of (activeAlerts alarmState) ''motor1-temperature'' =
      Some (newAlert ''a'' (breachData scenarioEnv ''motor1'' scenarioTemperature 110))"
    and b: "map_of (activeAlerts alarmState) ''motor1-oil_pressure'' = None"
    and c: "activeAlerts alarmState = [(''motor1-temperature'',
      newAlert ''a'' (breachData scenarioEnv ''motor1'' scenarioTemperature 110))]"
    and l: "length (alertHistory alarmState) = 3"
    by (simp_all add: alarmState_eq demoAlerts_def)
  from C3_one_alert_per_key [OF alarmState_reachable]
  have d: "distinct (map fst (activeAlerts alarmState))"
    and u: "\<And>e mid v x.
        \<not> hysteresisSkips (map_of (lastCheckedValues alarmState) (alertKeyOf mid v)) v x \<Longrightarrow>
        fst (evaluateThreshold (toFixed1 e) (motorNameOf mid) v x) \<noteq> Normal \<Longrightarrow>
        (case map_of (activeAlerts alarmState) (alertKeyOf mid v) of
           Some a \<Rightarrow>
             (\<exists>n. updateCount a = Some n \<and>
                activeAlerts (checkThreshold e mid v x alarmState) =
                  AList.update (alertKeyOf mid v)
                    (a\<lparr>alert_value := toFixed1 e x,
                       severity := fst (evaluateThreshold (toFixed1 e) (motorNameOf mid) v x),
                       message := snd (evaluateThreshold (toFixed1 e) (motorNameOf mid) v x),
                       timestamp := now e,
                       updateCount := Some (n + 1)\<rparr>)
                    (activeAlerts alarmState)) \<and>
             map fst (activeAlerts (checkThreshold e mid v x alarmState)) =
               map fst (activeAlerts alarmState) \<and>
             alertHistory (checkThreshold e mid v x alarmState) = alertHistory alarmState
         | None \<Rightarrow>
             activeAlerts (checkThreshold e mid v x alarmState) =
               activeAlerts alarmState @
                 [(alertKeyOf mid v, newAlert (uuid e) (breachData e mid v x))] \<and>
             updateCount (newAlert (uuid e) (breachData e mid v x)) = Some 1 \<and>
             alertHistory (checkThreshold e mid v x alarmState) =
               take 100 (newAlert (uuid e) (breachData e mid v x) # alertHistory alarmState))"
    by blast+
  have u1: "(\<exists>n. updateCount (newAlert ''a'' (breachData scenarioEnv ''motor1'' scenarioTemperature 110)) = Some n \<and>
      activeAlerts (checkThreshold scenarioEnv ''motor1'' scenarioTemperature 106 alarmState) =
        AList.update ''motor1-temperature''
          (newAlert ''a'' (breachData scenarioEnv ''motor1'' scenarioTemperature 110)
             \<lparr>alert_value := toFixed1 scenarioEnv 106,
              severity := fst (evaluateThreshold (toFixed1 scenarioEnv) (motorNameOf ''motor1'') scenarioTemperature 106),
              message := snd (evaluateThreshold (toFixed1 scenarioEnv) (motorNameOf ''motor1'') scenarioTemperature 106),
              timestamp := now scenarioEnv,
              updateCount := Some (n + 1)\<rparr>)
          (activeAlerts alarmState)) \<and>
      map fst (activeAlerts (checkThreshold scenarioEnv ''motor1'' scenarioTemperature 106 alarmState)) =
        map fst (activeAlerts alarmState) \<and>
      alertHistory (checkThreshold scenarioEnv ''motor1'' scenarioTemperature 106 alarmState) =
        alertHistory alarmState"
    using u [OF h1, of scenarioEnv] by (simp add: scenario_severities scenario_keys a)
  have u2: "activeAlerts (checkThreshold scenarioEnv ''motor1'' scenarioOil 10 alarmState) =
      activeAlerts alarmState @ [(''motor1-oil_pressure'',
         newAlert (uuid scenarioEnv) (breachData scenarioEnv ''motor1'' scenarioOil 10))] \<and>
      alertHistory (checkThreshold scenarioEnv ''motor1'' scenarioOil 10 alarmState) =
        take 100 (newAlert (uuid scenarioEnv) (breachData scenarioEnv ''motor1'' scenarioOil 10)
          # alertHistory alarmState)"
    using u [OF h2, of scenarioEnv] by (simp add: scenario_severities scenario_keys b)
  from u1 have "map_option updateCount
     (map_of (activeAlerts (checkThreshold scenarioEnv ''motor1'' scenarioTemperature 106 alarmState))
        ''motor1-temperature'') = Some (Some 2)"
    by (auto simp: c newAlert_fields)
  with d u1 u2 show ?thesis by (simp add: c l)
qed


text \<open>
  C6 (as the code has it).  When a check that passes the hysteresis filter finds the
  severity normal for a key with an active alert, the alert leaves the active map and the
  history keeps its length.  If the history still holds a record with that key, the first
  such record is the unresolved record of this very alert, and after the call it is in
  the history marked resolved with \<^verbatim>\<open>resolvedAt\<close> set to the time of the call.  If the
  bounded history holds no record with that key any more, the history is unchanged.
\<close>

theorem C6_resolved_on_normal:
  assumes "am_reachable s"
    and "\<not> hysteresisSkips (map_of (lastCheckedValues s) (alertKeyOf mid v)) v x"
    and "fst (evaluateThreshold (toFixed1 e) (motorNameOf mid) v x) = Normal"
    and "map_of (activeAlerts s) (alertKeyOf mid v) = Some a"
  shows
    "activeAlerts (checkThreshold e mid v x s) = AList.delete (alertKeyOf mid v) (activeAlerts s) \<and>
     map_of (activeAlerts (checkThreshold e mid v x s)) (alertKeyOf mid v) = None \<and>
     length (alertHistory (checkThreshold e mid v x s)) = length (alertHistory s) \<and>
     (case firstWithKey (alertKeyOf mid v) (alertHistory s) of
        None \<Rightarrow> alertHistory (checkThreshold e mid v x s) = alertHistory s
      | Some h \<Rightarrow>
          alert_id h = alert_id a \<and> \<not> resolved h \<and>
          firstWithKey (alertKeyOf mid v) (alertHistory (checkThreshold e mid v x s)) =
            Some (h\<lparr>resolved := True, resolvedAt := Some (now e)\<rparr>) \<and>
          h\<lparr>resolved := True, resolvedAt := Some (now e)\<rparr>
            \<in> set (alertHistory (checkThreshold e mid v x s)))"
proof -
  let ?k = "alertKeyOf mid v"
  let ?s0 = "s\<lparr>lastCheckedValues := AList.update ?k x (lastCheckedValues s)\<rparr>"
  from assms(1) have "am_inv s" by (rule am_reachable_inv)
  then have link: "inv_link s" by (simp add: am_inv_def)
  from assms(4) have a0: "map_of (activeAlerts ?s0) ?k = Some a" by simp
  have ct: "checkThreshold e mid v x s =
      s\<lparr>lastCheckedValues := AList.update ?k x (lastCheckedValues s),
        activeAlerts := AList.delete ?k (activeAlerts s),
        alertHistory := markResolved ?k (now e) (alertHistory s)\<rparr>"
    by (simp add: checkThreshold_normal [OF assms(2,3)] resolveAlertByKey_some [OF a0])
  have hist: "case firstWithKey ?k (alertHistory s) of
        None \<Rightarrow> markResolved ?k (now e) (alertHistory s) = alertHistory s
      | Some h \<Rightarrow>
          alert_id h = alert_id a \<and> \<not> resolved h \<and>
          firstWithKey ?k (markResolved ?k (now e) (alertHistory s)) =
            Some (h\<lparr>resolved := True, resolvedAt := Some (now e)\<rparr>) \<and>
          h\<lparr>resolved := True, resolvedAt := Some (now e)\<rparr>
            \<in> set (markResolved ?k (now e) (alertHistory s))"
  proof (cases "firstWithKey ?k (alertHistory s)")
    case None
    then show ?thesis by (simp add: markResolved_absent)
  next
    case (Some h)
    from link assms(4) Some have "alert_id h = alert_id a \<and> \<not> resolved h"
      unfolding inv_link_def by blast
    moreover note firstWithKey_markResolved_same [OF Some, of "now e"]
    moreover from this have "h\<lparr>resolved := True, resolvedAt := Some (now e)\<rparr>
        \<in> set (markResolved ?k (now e) (alertHistory s))"
      by (rule firstWithKey_mem)
    ultimately show ?thesis using Some by simp
  qed
  have "alertHistory (checkThreshold e mid v x s) = markResolved ?k (now e) (alertHistory s)"
    by (simp add: ct)
  with hist show ?thesis
    by (auto simp: ct delete_conv' length_markResolved split: option.splits)
qed

theorem C6_resolved_on_normal_witness:
  "activeAlerts (checkThreshold scenarioEnv ''motor1'' scenarioTemperature 70 alarmState) = [] \<and>
   map (\<lambda>h. (alert_id h, resolved h, resolvedAt h))
     (alertHistory (checkThreshold scenarioEnv ''motor1'' scenarioTemperature 70 alarmState)) =
     [(''a'', True, Some 1000), (''demo-1'', True, Some (- 3500000)), (''demo-2'', False, None)]"
proof -
  let ?a = "newAlert ''a'' (breachData scenarioEnv ''motor1'' scenarioTemperature 110)"
  have h2: "\<not> hysteresisSkips (map_of (lastCheckedValues alarmState)
      (alertKeyOf ''motor1'' scenarioTemperature)) scenarioTemperature 70"
    by (simp add: alarmState_eq scenario_keys scenario_hysteresis)
  have h3: "fst (evaluateThreshold (toFixed1 scenarioEnv) (motorNameOf ''motor1'')
      scenarioTemperature 70) = Normal"
    by (simp add: scenario_severities)
  have h4: "map_of (activeAlerts alarmState) (alertKeyOf ''motor1'' scenarioTemperature) = Some ?a"
    by (simp add: alarmState_eq scenario_keys)
  have f: "firstWithKey ''motor1-temperature'' (alertHistory alarmState) = Some ?a"
    by (simp add: alarmState_eq firstWithKey_Cons newAlert_fields breachData_fields
          scenario_keys)
  have ct: "checkThreshold scenarioEnv ''motor1'' scenarioTemperature 70 alarmState =
      resolveAlertByKey (now scenarioEnv) ''motor1-temperature''
        (alarmState\<lparr>lastCheckedValues :=
           AList.update ''motor1-temperature'' 70 (lastCheckedValues alarmState)\<rparr>)"
    using checkThreshold_normal [OF h2 h3] by (simp add: scenario_keys)
  have hist: "alertHistory (checkThreshold scenarioEnv ''motor1'' scenarioTemperature 70 alarmState)
      = markResolved ''motor1-temperature'' (now scenarioEnv) (alertHistory alarmState)"
    unfolding ct using h4 by (simp add: resolveAlertByKey_def scenario_keys)
  have tl: "map (\<lambda>h. (alert_id h, resolved h, resolvedAt h))
     (alertHistory (checkThreshold scenarioEnv ''motor1'' scenarioTemperature 70 alarmState)) =
     [(''a'', True, Some 1000), (''demo-1'', True, Some (- 3500000)), (''demo-2'', False, None)]"
    unfolding hist
    by (simp add: alarmState_eq newAlert_fields breachData_fields scenario_keys demoAlerts_def
          scenarioEnv_def)
  from C6_resolved_on_normal [OF alarmState_reachable h2 h3 h4]
  have "activeAlerts (checkThreshold scenarioEnv ''motor1'' scenarioTemperature 70 alarmState) =
      AList.delete ''motor1-temperature'' (activeAlerts alarmState)"
    by (simp add: scenario_keys)
  then have "activeAlerts (checkThreshold scenarioEnv ''motor1'' scenarioTemperature 70 alarmState)
      = []"
    by (simp add: alarmState_eq)
  with tl show ?thesis by simp
qed

text \<open>
  C6 as stated fails in a reachable state.  After a hundred oil pressure alerts
  were raised and resolved while the temperature alert \<open>a\<close> stayed active, the history no
  longer holds the record of \<open>a\<close>.  The temperature then returns to 70: the check passes
  the hysteresis filter, the severity is normal, the alert leaves the active map, and the
  history is unchanged: it holds no record with the id or the key of the alert, so no
  record of it is marked resolved and none remains.
\<close>

theorem C6_counterexample:
  "am_reachable evictedState \<and>
   map_option alert_id (map_of (activeAlerts evictedState) (alertKeyOf ''motor1'' scenarioTemperature))
     = Some ''a'' \<and>
   \<not> hysteresisSkips (map_of (lastCheckedValues evictedState)
       (alertKeyOf ''motor1'' scenarioTemperature)) scenarioTemperature 70 \<and>
   fst (evaluateThreshold (toFixed1 scenarioEnv) (motorNameOf ''motor1'') scenarioTemperature 70)
     = Normal \<and>
   map_of (activeAlerts (checkThreshold scenarioEnv ''motor1'' scenarioTemperature 70 evictedState))
     (alertKeyOf ''motor1'' scenarioTemperature) = None \<and>
   ''a'' \<notin> set (map alert_id
     (alertHistory (checkThreshold scenarioEnv ''motor1'' scenarioTemperature 70 evictedState))) \<and>
   alertKeyOf ''motor1'' scenarioTemperature \<notin> set (map alert_key
     (alertHistory (checkThreshold scenarioEnv ''motor1'' scenarioTemperature 70 evictedState))) \<and>
   alertHistory (checkThreshold scenarioEnv ''motor1'' scenarioTemperature 70 evictedState) =
     alertHistory evictedState"
proof -
  let ?k = "''motor1-temperature''"
  let ?a = "newAlert ''a'' (breachData scenarioEnv ''motor1'' scenarioTemperature 110)"
  note f = evictedState_facts
  have skip: "\<not> hysteresisSkips (map_of (lastCheckedValues evictedState)
       (alertKeyOf ''motor1'' scenarioTemperature)) scenarioTemperature 70"
    by (simp add: f scenario_keys scenario_hysteresis)
  have sev: "fst (evaluateThreshold (toFixed1 scenarioEnv) (motorNameOf ''motor1'')
      scenarioTemperature 70) = Normal"
    by (simp add: scenario_severities)
  have nokey: "?k \<notin> set (map alert_key (alertHistory evictedState))"
    using f(6) by auto
  have noid: "''a'' \<notin> set (map alert_id (alertHistory evictedState))"
  proof
    assume "''a'' \<in> set (map alert_id (alertHistory evictedState))"
    then obtain h where "h \<in> set (alertHistory evictedState)" and "alert_id h = ''a''"
      by auto
    with f(6) have "hd ''a'' = CHR ''b''" by fastforce
    then show False by simp
  qed
  have none: "firstWithKey ?k (alertHistory evictedState) = None"
    using nokey by (simp add: firstWithKey_none_iff)
  have a0: "map_of (activeAlerts (evictedState\<lparr>lastCheckedValues :=
      AList.update ?k 70 (lastCheckedValues evictedState)\<rparr>)) ?k = Some ?a"
    by (simp add: f)
  have ct: "checkThreshold scenarioEnv ''motor1'' scenarioTemperature 70 evictedState =
      evictedState\<lparr>lastCheckedValues := AList.update ?k 70 (lastCheckedValues evictedState),
        activeAlerts := AList.delete ?k (activeAlerts evictedState),
        alertHistory := alertHistory evictedState\<rparr>"
    using checkThreshold_normal [OF skip sev]
    by (simp add: scenario_keys resolveAlertByKey_some [OF a0] markResolved_absent [OF none])
  show ?thesis
    using skip sev nokey noid evictedState_reachable
    by (simp add: ct scenario_keys f newAlert_fields delete_conv')
qed

text \<open>
  C7.  \<^verbatim>\<open>resolveAlert\<close> with an id that no active alert carries (an id already resolved or
  one that never existed) returns the state as it was, and so does \<^verbatim>\<open>resolveAlertByKey\<close>
  with a key that is not active; resolving a key a second time changes nothing.  The
  model has no failure value because the source raises nothing on this path.
\<close>

theorem C7_resolve_noop:
  "(alertId \<notin> set (map (\<lambda>p. alert_id (snd p)) (activeAlerts s)) \<longrightarrow>
      resolveAlert t alertId resolvedBy s = s) \<and>
   (map_of (activeAlerts s) k = None \<longrightarrow> resolveAlertByKey t k s = s) \<and>
   resolveAlertByKey t' k (resolveAlertByKey t k s) = resolveAlertByKey t k s"
proof (intro conjI impI)
  assume "alertId \<notin> set (map (\<lambda>p. alert_id (snd p)) (activeAlerts s))"
  then have "find (\<lambda>a. alert_id a = alertId) (map snd (activeAlerts s)) = None"
    by (auto simp: find_None_iff)
  then show "resolveAlert t alertId resolvedBy s = s" by (simp add: resolveAlert_def)
next
  assume "map_of (activeAlerts s) k = None"
  then show "resolveAlertByKey t k s = s" by (rule resolveAlertByKey_none)
next
  have "map_of (activeAlerts (resolveAlertByKey t k s)) k = None"
    by (cases "map_of (activeAlerts s) k")
       (simp_all add: resolveAlertByKey_none resolveAlertByKey_some delete_conv')
  then show "resolveAlertByKey t' k (resolveAlertByKey t k s) = resolveAlertByKey t k s"
    by (rule resolveAlertByKey_none)
qed

theorem C7_resolve_noop_witness:
  "resolveAlert 5000 ''demo-1'' ''supervisor'' alarmState = alarmState \<and>
   resolveAlert 5000 ''never-issued'' ''system'' alarmState = alarmState \<and>
   resolveAlertByKey 5000 ''motor1-oil_pressure'' alarmState = alarmState"
proof -
  have a: "''demo-1'' \<notin> set (map (\<lambda>p. alert_id (snd p)) (activeAlerts alarmState))"
    and b: "''never-issued'' \<notin> set (map (\<lambda>p. alert_id (snd p)) (activeAlerts alarmState))"
    and c: "map_of (activeAlerts alarmState) ''motor1-oil_pressure'' = None"
    by (simp_all add: alarmState_eq newAlert_fields)
  show ?thesis
    using a b c
      C7_resolve_noop [of "''demo-1''" alarmState 5000 "''supervisor''" "''motor1-oil_pressure''"]
      C7_resolve_noop [of "''never-issued''" alarmState 5000 "''system''" "''motor1-oil_pressure''"]
    by simp
qed

text \<open>
  C8.  In every reachable state the history holds at most 100 records.  When an alert is
  created for a key that is not active, its record is put at the front; if the history
  was full, the last (oldest) record is dropped, and the history stays within 100.
\<close>

theorem C8_history_bounded:
  assumes "am_reachable s"
  shows
    "length (alertHistory s) \<le> 100 \<and>
     (\<forall>i d. map_of (activeAlerts s) (alert_key d) = None \<longrightarrow>
        alertHistory (handleAlert i d s) =
          (if length (alertHistory s) = 100 then newAlert i d # butlast (alertHistory s)
           else newAlert i d # alertHistory s) \<and>
        length (alertHistory (handleAlert i d s)) \<le> 100)"
proof -
  from assms have "am_inv s" by (rule am_reachable_inv)
  then have mh: "maxHistory s = 100" and len: "length (alertHistory s) \<le> 100"
    by (simp_all add: am_inv_def inv_hist_def)
  have "\<forall>i d. map_of (activeAlerts s) (alert_key d) = None \<longrightarrow>
        alertHistory (handleAlert i d s) =
          (if length (alertHistory s) = 100 then newAlert i d # butlast (alertHistory s)
           else newAlert i d # alertHistory s) \<and>
        length (alertHistory (handleAlert i d s)) \<le> 100"
  proof (intro allI impI)
    fix i and d :: alert_data
    assume n: "map_of (activeAlerts s) (alert_key d) = None"
    show "alertHistory (handleAlert i d s) =
          (if length (alertHistory s) = 100 then newAlert i d # butlast (alertHistory s)
           else newAlert i d # alertHistory s) \<and>
        length (alertHistory (handleAlert i d s)) \<le> 100"
      using len by (cases "alertHistory s") (auto simp: handleAlert_new [OF n] mh)
  qed
  with len show ?thesis by simp
qed

theorem C8_history_bounded_witness:
  "length (alertHistory evictedState) = 100 \<and>
   alertHistory (handleAlert ''c'' (breachData scenarioEnv ''motor1'' scenarioOil 10) evictedState) =
     newAlert ''c'' (breachData scenarioEnv ''motor1'' scenarioOil 10)
       # butlast (alertHistory evictedState) \<and>
   length (alertHistory
     (handleAlert ''c'' (breachData scenarioEnv ''motor1'' scenarioOil 10) evictedState)) = 100"
proof -
  have n: "map_of (activeAlerts evictedState)
      (alert_key (breachData scenarioEnv ''motor1'' scenarioOil 10)) = None"
    by (simp add: breachData_fields scenario_keys evictedState_facts)
  show ?thesis
    using n C8_history_bounded [OF evictedState_reachable]
    by (simp add: evictedState_facts)
qed


section \<open>Proofs: state store\<close>

text \<open>
  C10.  For every alert object passed in, \<^verbatim>\<open>addAlert\<close> stores a record that has the newly
  generated id (whatever id the argument had), the newly generated timestamp and
  \<^verbatim>\<open>resolved\<close> false, and otherwise the argument's fields.  The record is appended to the
  active list and put at the front of the history; the history loses its last entry when
  that makes more than 100, so a history within 100 stays within 100; and
  \<^verbatim>\<open>kpis.activeAlerts\<close> is the new length of the active list.
\<close>

theorem C10_addAlert:
  "alerts_active (addAlert newId t a s) =
     alerts_active s @ [a\<lparr>alert_id := newId, timestamp := t, resolved := False\<rparr>] \<and>
   alert_id (last (alerts_active (addAlert newId t a s))) = newId \<and>
   timestamp (last (alerts_active (addAlert newId t a s))) = t \<and>
   \<not> resolved (last (alerts_active (addAlert newId t a s))) \<and>
   alerts_history (addAlert newId t a s) =
     (if length (alerts_history s) \<ge> 100
      then a\<lparr>alert_id := newId, timestamp := t, resolved := False\<rparr>
             # butlast (alerts_history s)
      else a\<lparr>alert_id := newId, timestamp := t, resolved := False\<rparr> # alerts_history s) \<and>
   (length (alerts_history s) \<le> 100 \<longrightarrow> length (alerts_history (addAlert newId t a s)) \<le> 100) \<and>
   kpis_activeAlerts (addAlert newId t a s) = length (alerts_active (addAlert newId t a s)) \<and>
   kpis_activeAlerts (addAlert newId t a s) = length (alerts_active s) + 1"
proof -
  let ?n = "a\<lparr>alert_id := newId, timestamp := t, resolved := False\<rparr>"
  have act: "alerts_active (addAlert newId t a s) = alerts_active s @ [?n]"
    by (simp add: addAlert_def Let_def)
  have hist: "alerts_history (addAlert newId t a s) =
     (if length (alerts_history s) \<ge> 100 then ?n # butlast (alerts_history s)
      else ?n # alerts_history s)"
    by (cases "alerts_history s") (auto simp: addAlert_def Let_def)
  have kpi: "kpis_activeAlerts (addAlert newId t a s) = length (alerts_active s) + 1"
    by (simp add: addAlert_def Let_def)
  have len: "length (alerts_history s) \<le> 100 \<longrightarrow>
      length (alerts_history (addAlert newId t a s)) \<le> 100"
    unfolding hist by auto
  show ?thesis
    using hist len by (simp add: act kpi)
qed

theorem C10_addAlert_witness:
  "map alert_id (alerts_active
     (addAlert ''u-2'' 7000 (newAlert ''a'' (breachData scenarioEnv ''motor1'' scenarioTemperature 110))
        store_constructor)) = [''u-2''] \<and>
   map timestamp (alerts_history
     (addAlert ''u-2'' 7000 (newAlert ''a'' (breachData scenarioEnv ''motor1'' scenarioTemperature 110))
        store_constructor)) = [7000] \<and>
   length (alerts_history
     (addAlert ''u-2'' 7000 (newAlert ''a'' (breachData scenarioEnv ''motor1'' scenarioTemperature 110))
        store_constructor)) \<le> 100 \<and>
   kpis_activeAlerts
     (addAlert ''u-2'' 7000 (newAlert ''a'' (breachData scenarioEnv ''motor1'' scenarioTemperature 110))
        store_constructor) = 1"
proof -
  have e: "alerts_active store_constructor = []" "alerts_history store_constructor = []"
    by (simp_all add: store_constructor_def)
  show ?thesis
    using C10_addAlert [of "''u-2''" 7000
        "newAlert ''a'' (breachData scenarioEnv ''motor1'' scenarioTemperature 110)"
        store_constructor]
    by (simp add: e)
qed

section \<open>Proofs: push transport wrapper\<close>

lemma scheduleReconnect_below:
  "currentRetries s < maxRetries s \<Longrightarrow>
   scheduleReconnect s =
     s\<lparr>currentRetries := currentRetries s + 1,
       scheduled := scheduled s @ [reconnectInterval s * (15 / 10) ^ currentRetries s]\<rparr>"
  by (simp add: scheduleReconnect_def Let_def)

lemma socket_onclose_retry:
  "\<not> isManualClose s \<Longrightarrow> currentRetries s < maxRetries s \<Longrightarrow>
   socket_onclose s =
     s\<lparr>socket := map_option (\<lambda>r. Closed) (socket s),
       currentRetries := currentRetries s + 1,
       scheduled := scheduled s @ [reconnectInterval s * (15 / 10) ^ currentRetries s]\<rparr>"
  by (simp add: socket_onclose_def Let_def scheduleReconnect_below)

lemma socket_onclose_exhausted:
  "\<not> isManualClose s \<Longrightarrow> currentRetries s \<ge> maxRetries s \<Longrightarrow>
   socket_onclose s =
     s\<lparr>socket := map_option (\<lambda>r. Closed) (socket s),
       dispatched := dispatched s @ [''websocket:maxRetries'']\<rparr>"
  by (simp add: socket_onclose_def Let_def)

lemma specDelay_strict: "n < m \<Longrightarrow> 1 \<le> n \<Longrightarrow> specDelay n < specDelay m"
proof -
  assume "n < m" and "1 \<le> n"
  then have "n - 1 < m - 1" by simp
  then have "(15 / 10 :: real) ^ (n - 1) < (15 / 10) ^ (m - 1)"
    by (simp add: power_strict_increasing)
  then show ?thesis by (simp add: specDelay_def)
qed

lemma retryRound_retry:
  assumes "\<not> isManualClose s" and "currentRetries s < maxRetries s"
  shows "retryRound s =
     s\<lparr>socket := Some Connecting,
       currentRetries := currentRetries s + 1,
       scheduled := scheduled s @ [reconnectInterval s * (15 / 10) ^ currentRetries s]\<rparr>"
  using assms
  by (simp add: retryRound_def Let_def socket_onclose_retry reconnectTimer_def connect_def
        isConnected_def)

lemma retryRound_exhausted:
  assumes "\<not> isManualClose s" and "currentRetries s \<ge> maxRetries s"
  shows "retryRound s =
     s\<lparr>socket := map_option (\<lambda>r. Closed) (socket s),
       dispatched := dispatched s @ [''websocket:maxRetries'']\<rparr>"
  using assms by (simp add: retryRound_def Let_def socket_onclose_exhausted)

text \<open>
  After \<open>k\<close> rounds of a failing connection, for \<open>k\<close> up to the cap, the timers set so
  far have the delays of attempts 1 to \<open>k\<close>, and no event has been dispatched.
\<close>

lemma retryRounds:
  assumes "maxRetries s = 10" and "reconnectInterval s = 3000" and "\<not> isManualClose s"
    and "currentRetries s = 0"
  shows "k \<le> 10 \<Longrightarrow>
     scheduled ((retryRound ^^ k) s) = scheduled s @ map specDelay [1..<Suc k] \<and>
     dispatched ((retryRound ^^ k) s) = dispatched s \<and>
     currentRetries ((retryRound ^^ k) s) = k \<and>
     maxRetries ((retryRound ^^ k) s) = 10 \<and>
     reconnectInterval ((retryRound ^^ k) s) = 3000 \<and>
     \<not> isManualClose ((retryRound ^^ k) s)"
proof (induction k)
  case 0
  then show ?case using assms by simp
next
  case (Suc k)
  let ?t = "(retryRound ^^ k) s"
  from Suc have k: "k \<le> 10" and k': "k < 10" by simp_all
  from Suc.IH [OF k] have ih: "scheduled ?t = scheduled s @ map specDelay [1..<Suc k]"
    "dispatched ?t = dispatched s" "currentRetries ?t = k" "maxRetries ?t = 10"
    "reconnectInterval ?t = 3000" "\<not> isManualClose ?t"
    by simp_all
  have lt: "currentRetries ?t < maxRetries ?t" using ih k' by simp
  have "(retryRound ^^ Suc k) s = retryRound ?t" by simp
  also have "\<dots> = ?t\<lparr>socket := Some Connecting, currentRetries := currentRetries ?t + 1,
       scheduled := scheduled ?t @ [reconnectInterval ?t * (15 / 10) ^ currentRetries ?t]\<rparr>"
    by (rule retryRound_retry [OF ih(6) lt])
  finally have st: "(retryRound ^^ Suc k) s =
      ?t\<lparr>socket := Some Connecting, currentRetries := currentRetries ?t + 1,
       scheduled := scheduled ?t @ [reconnectInterval ?t * (15 / 10) ^ currentRetries ?t]\<rparr>" .
  have d: "reconnectInterval ?t * (15 / 10) ^ currentRetries ?t = specDelay (Suc k)"
    by (simp add: ih specDelay_def)
  show ?case
    unfolding st d using ih by simp
qed

text \<open>
  C5.  With the constructor's settings (base 3000 ms, cap 10): a close that is not manual
  and finds the retry counter at \<open>n - 1\<close>, for \<open>n\<close> from 1 to 10, sets one reconnect timer
  with delay \<open>3000 * 1.5 ^ (n - 1)\<close> ms, raises the counter to \<open>n\<close> and dispatches
  nothing; these delays are strictly increasing in \<open>n\<close>; ten rounds of a failing
  connection set exactly these ten timers in order.  A close that is not manual and
  finds the counter at the cap sets no timer, leaves the counter, and dispatches
  \<^verbatim>\<open>websocket:maxRetries\<close>.  \<^verbatim>\<open>connect()\<close> itself, when the socket can be created, sets no
  timer and leaves the counter; the counter returns to 0 when a connection opens.
\<close>

theorem C5_reconnect_backoff:
  assumes "maxRetries s = 10" and "reconnectInterval s = 3000" and "\<not> isManualClose s"
  shows
    "(\<forall>n. 1 \<le> n \<and> n \<le> 10 \<and> currentRetries s = n - 1 \<longrightarrow>
        scheduled (socket_onclose s) = scheduled s @ [3000 * (15 / 10) ^ (n - 1)] \<and>
        currentRetries (socket_onclose s) = n \<and>
        dispatched (socket_onclose s) = dispatched s) \<and>
     (\<forall>n m. 1 \<le> n \<and> n < m \<and> m \<le> 10 \<longrightarrow>
        (3000 :: real) * (15 / 10) ^ (n - 1) < 3000 * (15 / 10) ^ (m - 1)) \<and>
     (currentRetries s = 0 \<longrightarrow>
        scheduled ((retryRound ^^ 10) s) =
          scheduled s @ map (\<lambda>n. 3000 * (15 / 10) ^ (n - 1)) [1..<11] \<and>
        dispatched ((retryRound ^^ 10) s) = dispatched s \<and>
        currentRetries ((retryRound ^^ 10) s) = 10 \<and>
        scheduled ((retryRound ^^ 11) s) = scheduled ((retryRound ^^ 10) s) \<and>
        dispatched ((retryRound ^^ 11) s) = dispatched s @ [''websocket:maxRetries'']) \<and>
     (currentRetries s \<ge> 10 \<longrightarrow>
        scheduled (socket_onclose s) = scheduled s \<and>
        currentRetries (socket_onclose s) = currentRetries s \<and>
        dispatched (socket_onclose s) = dispatched s @ [''websocket:maxRetries''] \<and>
        scheduled (connect False (socket_onclose s)) = scheduled s \<and>
        currentRetries (connect False (socket_onclose s)) = currentRetries s) \<and>
     currentRetries (socket_onopen s) = 0"
proof (intro conjI allI impI)
  fix n
  assume n: "1 \<le> n \<and> n \<le> 10 \<and> currentRetries s = n - 1"
  then have lt: "currentRetries s < maxRetries s" using assms(1) by arith
  show "scheduled (socket_onclose s) = scheduled s @ [3000 * (15 / 10) ^ (n - 1)]"
    using n by (simp add: socket_onclose_retry [OF assms(3) lt] assms(2))
  show "currentRetries (socket_onclose s) = n"
    using n by (simp add: socket_onclose_retry [OF assms(3) lt])
  show "dispatched (socket_onclose s) = dispatched s"
    by (simp add: socket_onclose_retry [OF assms(3) lt])
next
  fix n m :: nat
  assume "1 \<le> n \<and> n < m \<and> m \<le> 10"
  then have "specDelay n < specDelay m" by (simp add: specDelay_strict)
  then show "(3000 :: real) * (15 / 10) ^ (n - 1) < 3000 * (15 / 10) ^ (m - 1)"
    by (simp add: specDelay_def)
next
  assume z: "currentRetries s = 0"
  let ?t = "(retryRound ^^ 10) s"
  from retryRounds [OF assms(1,2,3) z, of 10]
  have r: "scheduled ?t = scheduled s @ map specDelay [1..<11]" "dispatched ?t = dispatched s"
      "currentRetries ?t = 10" "maxRetries ?t = 10" "\<not> isManualClose ?t"
    by simp_all
  have sd: "specDelay = (\<lambda>n. 3000 * (15 / 10) ^ (n - 1))"
    by (rule ext) (simp add: specDelay_def)
  show "scheduled ?t = scheduled s @ map (\<lambda>n. 3000 * (15 / 10) ^ (n - 1)) [1..<11]"
    using r(1) unfolding sd .
  show "dispatched ?t = dispatched s" by (rule r(2))
  show "currentRetries ?t = 10" by (rule r(3))
  have ge: "currentRetries ?t \<ge> maxRetries ?t" using r by simp
  have e: "(retryRound ^^ 11) s = retryRound ?t"
    by (simp add: eval_nat_numeral)
  show "scheduled ((retryRound ^^ 11) s) = scheduled ?t"
    unfolding e by (simp add: retryRound_exhausted [OF r(5) ge])
  show "dispatched ((retryRound ^^ 11) s) = dispatched s @ [''websocket:maxRetries'']"
    unfolding e by (simp add: retryRound_exhausted [OF r(5) ge] r(2))
next
  assume "10 \<le> currentRetries s"
  then have ge: "currentRetries s \<ge> maxRetries s" using assms(1) by simp
  note c = socket_onclose_exhausted [OF assms(3) ge]
  show "scheduled (socket_onclose s) = scheduled s" by (simp add: c)
  show "currentRetries (socket_onclose s) = currentRetries s" by (simp add: c)
  show "dispatched (socket_onclose s) = dispatched s @ [''websocket:maxRetries'']"
    by (simp add: c)
  show "scheduled (connect False (socket_onclose s)) = scheduled s"
    by (simp add: c connect_def isConnected_def)
  show "currentRetries (connect False (socket_onclose s)) = currentRetries s"
    by (simp add: c connect_def isConnected_def)
next
  show "currentRetries (socket_onopen s) = 0" by (simp add: socket_onopen_def)
qed

theorem C5_reconnect_backoff_witness:
  "scheduled (socket_onclose (socket_onopen (connect False ws_constructor))) = [3000] \<and>
   scheduled ((retryRound ^^ 10) ws_constructor) =
     [3000, 4500, 6750, 10125, 30375 / 2, 91125 / 4, 273375 / 8, 820125 / 16, 2460375 / 32,
      7381125 / 64] \<and>
   dispatched ((retryRound ^^ 10) ws_constructor) = [] \<and>
   scheduled ((retryRound ^^ 11) ws_constructor) = scheduled ((retryRound ^^ 10) ws_constructor) \<and>
   dispatched ((retryRound ^^ 11) ws_constructor) = [''websocket:maxRetries'']"
proof -
  let ?o = "socket_onopen (connect False ws_constructor)"
  have o: "maxRetries ?o = 10" "reconnectInterval ?o = 3000" "\<not> isManualClose ?o"
      "currentRetries ?o = 0" "scheduled ?o = []"
    by (simp_all add: socket_onopen_def connect_def isConnected_def ws_constructor_def)
  have c: "maxRetries ws_constructor = 10" "reconnectInterval ws_constructor = 3000"
      "\<not> isManualClose ws_constructor" "currentRetries ws_constructor = 0"
      "scheduled ws_constructor = []" "dispatched ws_constructor = []"
    by (simp_all add: ws_constructor_def)
  have l: "[1..<11] = [1, 2, 3, 4, 5, 6, 7, 8, 9, 10 :: nat]"
    by (simp add: upt_rec)
  have 1: "scheduled (socket_onclose ?o) = [3000]"
    using C5_reconnect_backoff [OF o(1,2,3), THEN conjunct1, rule_format, of 1] o(4,5)
    by simp
  from C5_reconnect_backoff [OF c(1,2,3)] c(4)
  have 2: "scheduled ((retryRound ^^ 10) ws_constructor) =
          scheduled ws_constructor @ map (\<lambda>n. 3000 * (15 / 10) ^ (n - 1)) [1..<11] \<and>
        dispatched ((retryRound ^^ 10) ws_constructor) = dispatched ws_constructor \<and>
        scheduled ((retryRound ^^ 11) ws_constructor) =
          scheduled ((retryRound ^^ 10) ws_constructor) \<and>
        dispatched ((retryRound ^^ 11) ws_constructor) =
          dispatched ws_constructor @ [''websocket:maxRetries'']"
    by blast
  have m: "map (\<lambda>n. 3000 * (15 / 10) ^ (n - 1)) [1, 2, 3, 4, 5, 6, 7, 8, 9, 10 :: nat] =
     [3000, 4500, 6750, 10125, 30375 / 2, 91125 / 4, 273375 / 8, 820125 / 16, 2460375 / 32,
      7381125 / 64 :: real]"
    by (simp add: power_numeral_reduce)
  from 1 2 show ?thesis
    unfolding l m by (simp add: c)
qed


section \<open>Proofs: realtime monitor\<close>

lemma updateMotor_connection [simp]:
  "connection (updateMotor t mid d st) = connection st"
  by (simp add: updateMotor_def split: option.splits)

lemma updateMotor_present:
  "motors st mid = Some m \<Longrightarrow>
   motors (updateMotor t mid d st) = (motors st)(mid \<mapsto> (m ++ d)(''lastUpdate'' \<mapsto> JTime t))"
  by (simp add: updateMotor_def)

lemma useSimulatedData_fields [simp]:
  "mode (useSimulatedData t rnd s) = mode s"
  "isPollingActive (useSimulatedData t rnd s) = isPollingActive s"
  "pollingRetries (useSimulatedData t rnd s) = pollingRetries s"
  "maxPollingRetries (useSimulatedData t rnd s) = maxPollingRetries s"
  "errors (useSimulatedData t rnd s) = errors s"
  "recoveryTimers (useSimulatedData t rnd s) = recoveryTimers s"
  "inFlight (useSimulatedData t rnd s) = inFlight s"
  by (simp_all add: useSimulatedData_def Let_def)

lemma useSimulatedData_simulated:
  assumes "motors (store s) ''motor1'' \<noteq> None" and "motors (store s) ''motor2'' \<noteq> None"
  shows "isSimulated (store (useSimulatedData t rnd s)) ''motor1'' \<and>
    isSimulated (store (useSimulatedData t rnd s)) ''motor2''"
proof -
  from assms obtain m1 m2 where m: "motors (store s) ''motor1'' = Some m1"
    "motors (store s) ''motor2'' = Some m2"
    by auto
  show ?thesis
    by (simp add: useSimulatedData_def Let_def isSimulated_def updateMotor_present m)
qed

lemma activateOfflineMode_fields [simp]:
  "mode (activateOfflineMode t rnd s) = Offline"
  "isPollingActive (activateOfflineMode t rnd s) = isPollingActive s"
  "pollingRetries (activateOfflineMode t rnd s) = pollingRetries s"
  "maxPollingRetries (activateOfflineMode t rnd s) = maxPollingRetries s"
  "errors (activateOfflineMode t rnd s) = errors s"
  "recoveryTimers (activateOfflineMode t rnd s) = recoveryTimers s @ [30000]"
  "inFlight (activateOfflineMode t rnd s) = inFlight s"
  by (simp_all add: activateOfflineMode_def scheduleRecoveryAttempt_def Let_def)

lemma activateOfflineMode_simulated:
  assumes "motors (store s) ''motor1'' \<noteq> None" and "motors (store s) ''motor2'' \<noteq> None"
  shows "isSimulated (store (activateOfflineMode t rnd s)) ''motor1'' \<and>
    isSimulated (store (activateOfflineMode t rnd s)) ''motor2''"
  using assms
  by (simp add: activateOfflineMode_def scheduleRecoveryAttempt_def Let_def
        useSimulatedData_simulated)

lemma cycleCatch_mode:
  "mode (cycleCatch t msg rnd s) =
     (if pollingRetries s + 1 \<ge> maxPollingRetries s then Offline else mode s)"
  by (simp add: cycleCatch_def handlePollingError_def Let_def)

lemma cycleTry_mode [simp]: "mode (cycleTry t d dur cfg s) = mode s"
  by (simp add: cycleTry_def Let_def)

text \<open>Listeners that all set the same mode: the mode after the dispatch.\<close>

lemma mode_fold_handlers:
  assumes "\<And>i u. mode (h i u) = m"
  shows "mode (fold h [0..<n] s) = (if n = 0 then mode s else m)"
  by (induction n) (simp_all add: assms)

lemma mode_dispatchToListeners:
  assumes "\<And>i u. mode (h i u) = m"
  shows "mode (dispatchToListeners h s) = (if listeners s = 0 then mode s else m)"
  unfolding dispatchToListeners_def by (rule mode_fold_handlers [OF assms])

text \<open>
  The mode after any event: a document event with no listener registered leaves it;
  otherwise it is the entry of the specification's table for the mode before and the
  signal that the event is.
\<close>

lemma mode_step_table:
  "mode (rm_step s ev) =
     (if isDocumentEvent ev \<and> listeners s = 0 then mode s
      else specModeTable (mode s) (signalOf s ev))"
proof (cases ev)
  case (WsConnected t)
  have "\<And>i u. mode ((\<lambda>i. on_websocket_connected t) i u) = Websocket"
    by (simp add: on_websocket_connected_def pausePolling_def)
  from mode_dispatchToListeners [of "\<lambda>i. on_websocket_connected t", OF this]
  show ?thesis using WsConnected by simp
next
  case (WsDisconnected t)
  have "\<And>i u. mode ((\<lambda>i. on_websocket_disconnected t) i u) = Polling"
    by (simp add: on_websocket_disconnected_def resumePolling_def)
  from mode_dispatchToListeners [of "\<lambda>i. on_websocket_disconnected t", OF this]
  show ?thesis using WsDisconnected by simp
next
  case (WsMaxRetries t rnd)
  have "\<And>i u. mode ((\<lambda>i. on_websocket_maxRetries t (\<lambda>j. rnd (6 * i + j))) i u) = Offline"
    by (simp add: on_websocket_maxRetries_def)
  from mode_dispatchToListeners
    [of "\<lambda>i. on_websocket_maxRetries t (\<lambda>j. rnd (6 * i + j))", OF this]
  show ?thesis using WsMaxRetries by simp
next
  case (HealthCheck t)
  then show ?thesis
    by (simp add: checkConnectionHealth_def resumePolling_def Let_def split: option.splits)
next
  case (Tick hasToken t rnd)
  then show ?thesis
    by (simp add: pollingTick_def executePollingCycle_def cycleFinally_def cycleCatch_mode
          failureSignal_def Let_def)
next
  case (CycleEnds t outcome)
  then show ?thesis
    by (cases outcome)
       (simp_all add: cycleResume_def cycleFinally_def cycleCatch_mode failureSignal_def Let_def)
qed (simp_all add: start_def recoveryAttempt_def resumePolling_def stop_def Let_def)

text \<open>A failed cycle below the maximum counts one failure and leaves the mode.\<close>

lemma failedCycle_below:
  assumes "mode s = Polling" and "\<not> isPollingActive s"
    and "pollingRetries s + 1 < maxPollingRetries s"
  shows "mode (failedCycle t msg rnd s) = Polling"
    and "\<not> isPollingActive (failedCycle t msg rnd s)"
    and "pollingRetries (failedCycle t msg rnd s) = pollingRetries s + 1"
    and "errors (failedCycle t msg rnd s) = errors s + 1"
    and "maxPollingRetries (failedCycle t msg rnd s) = maxPollingRetries s"
    and "recoveryTimers (failedCycle t msg rnd s) = recoveryTimers s"
    and "inFlight (failedCycle t msg rnd s) = inFlight s"
    and "motors (store (failedCycle t msg rnd s)) = motors (store s)"
  using assms
  by (simp_all add: failedCycle_def pollingTick_def executePollingCycle_def cycleResume_def
        cycleFinally_def cycleCatch_def handlePollingError_def Let_def)

text \<open>A failed cycle that reaches the maximum switches to offline.\<close>

lemma failedCycle_exhausts:
  assumes "mode s = Polling" and "\<not> isPollingActive s"
    and "pollingRetries s + 1 \<ge> maxPollingRetries s"
  shows "mode (failedCycle t msg rnd s) = Offline"
    and "\<not> isPollingActive (failedCycle t msg rnd s)"
    and "pollingRetries (failedCycle t msg rnd s) = pollingRetries s + 1"
    and "errors (failedCycle t msg rnd s) = errors s + 1"
    and "recoveryTimers (failedCycle t msg rnd s) = recoveryTimers s @ [30000]"
    and "motors (store s) ''motor1'' \<noteq> None \<Longrightarrow> motors (store s) ''motor2'' \<noteq> None \<Longrightarrow>
      isSimulated (store (failedCycle t msg rnd s)) ''motor1'' \<and>
      isSimulated (store (failedCycle t msg rnd s)) ''motor2''"
proof -
  let ?s1 = "s\<lparr>isPollingActive := True, pollingAttempts := pollingAttempts s + 1,
      pollingErrors := pollingErrors s + 1, errors := errors s + 1,
      pollingRetries := pollingRetries s + 1,
      store := (store s)\<lparr>connection := (connection (store s))
        \<lparr>conn_status := Some ''error'', conn_lastError := Some t,
         conn_errorMessage := Some msg\<rparr>\<rparr>\<rparr>"
  have fc: "failedCycle t msg rnd s = cycleFinally (activateOfflineMode t rnd ?s1)"
    using assms
    by (simp add: failedCycle_def pollingTick_def executePollingCycle_def cycleResume_def
          cycleCatch_def handlePollingError_def Let_def)
  show "mode (failedCycle t msg rnd s) = Offline"
    and "\<not> isPollingActive (failedCycle t msg rnd s)"
    and "pollingRetries (failedCycle t msg rnd s) = pollingRetries s + 1"
    and "errors (failedCycle t msg rnd s) = errors s + 1"
    and "recoveryTimers (failedCycle t msg rnd s) = recoveryTimers s @ [30000]"
    by (simp_all add: fc cycleFinally_def)
  assume "motors (store s) ''motor1'' \<noteq> None" and "motors (store s) ''motor2'' \<noteq> None"
  then have "motors (store ?s1) ''motor1'' \<noteq> None" and "motors (store ?s1) ''motor2'' \<noteq> None"
    by simp_all
  then have "isSimulated (store (activateOfflineMode t rnd ?s1)) ''motor1'' \<and>
      isSimulated (store (activateOfflineMode t rnd ?s1)) ''motor2''"
    by (rule activateOfflineMode_simulated)
  then show "isSimulated (store (failedCycle t msg rnd s)) ''motor1'' \<and>
      isSimulated (store (failedCycle t msg rnd s)) ''motor2''"
    by (simp add: fc cycleFinally_def)
qed

lemma recoveryAttempt_offline:
  "mode s = Offline \<Longrightarrow>
   mode (recoveryAttempt s) = Polling \<and> pollingRetries (recoveryAttempt s) = 0 \<and>
   \<not> isPollingActive (recoveryAttempt s) \<and> errors (recoveryAttempt s) = errors s"
  by (simp add: recoveryAttempt_def resumePolling_def Let_def)

lemma pollingState_facts:
  "maxPollingRetries pollingState = 3" "mode pollingState = Polling"
  "\<not> isPollingActive pollingState" "pollingRetries pollingState = 0"
  "recoveryTimers pollingState = []" "errors pollingState = 0"
  "motors (store pollingState) ''motor1'' \<noteq> None"
  "motors (store pollingState) ''motor2'' \<noteq> None"
  by (simp_all add: pollingState_def on_websocket_disconnected_def resumePolling_def start_def
        rm_constructor_def store_constructor_def)

text \<open>The state after three failed cycles in a row.\<close>

lemma exhaustedState_facts:
  "mode exhaustedState = Offline" "pollingRetries exhaustedState = 3"
  "errors exhaustedState = 3" "recoveryTimers exhaustedState = [30000]"
proof -
  let ?s1 = "failedCycle 5000 ''Failed to fetch'' noRandom pollingState"
  let ?s2 = "failedCycle 10000 ''Failed to fetch'' noRandom ?s1"
  note p = pollingState_facts
  have b0: "mode pollingState = Polling" "\<not> isPollingActive pollingState"
      "pollingRetries pollingState + 1 < maxPollingRetries pollingState"
    by (simp_all add: p)
  note f1 = failedCycle_below [OF b0, of 5000 "''Failed to fetch''" noRandom]
  have b1: "mode ?s1 = Polling" "\<not> isPollingActive ?s1"
      "pollingRetries ?s1 + 1 < maxPollingRetries ?s1"
    by (simp_all add: f1 p)
  note f2 = failedCycle_below [OF b1, of 10000 "''Failed to fetch''" noRandom]
  have b2: "mode ?s2 = Polling" "\<not> isPollingActive ?s2"
      "pollingRetries ?s2 + 1 \<ge> maxPollingRetries ?s2"
    by (simp_all add: f2 f1 p)
  note f3 = failedCycle_exhausts [OF b2, of 15000 "''Failed to fetch''" noRandom]
  show "mode exhaustedState = Offline" "pollingRetries exhaustedState = 3"
    "errors exhaustedState = 3" "recoveryTimers exhaustedState = [30000]"
    unfolding exhaustedState_def by (simp_all add: f3 f2 f1 p)
qed

text \<open>
  C4 (as the code has it).  The transition function of the monitor is a total function
  of the state and the event.  A document event changes the mode only when a listener for
  it is registered; with none registered it leaves the mode.  Otherwise the mode the
  function yields is the entry of the specification's table for the mode before and the
  signal that the event is.  From polling with the retry counter at 0 and no cycle under
  way, the first and the second failed polling cycle leave the mode; the third makes it
  offline, stores simulated data with \<^verbatim>\<open>isSimulated: true\<close> for both motors, and sets a
  recovery timer of 30000 ms.  When that timer fires in mode offline, the mode is polling
  again and the polling retry counter \<^verbatim>\<open>pollingRetries\<close>, the one that is compared with
  the maximum, is 0.
\<close>

theorem C4_mode_transitions:
  assumes "maxPollingRetries s = 3"
    and "motors (store s) ''motor1'' \<noteq> None" and "motors (store s) ''motor2'' \<noteq> None"
  shows
    "(\<forall>s' ev. mode (rm_step s' ev) =
        (if isDocumentEvent ev \<and> listeners s' = 0 then mode s'
         else specModeTable (mode s') (signalOf s' ev))) \<and>
     (mode s = Polling \<and> \<not> isPollingActive s \<and> pollingRetries s = 0 \<longrightarrow>
        (\<forall>t1 m1 r1 t2 m2 r2 t3 m3 r3.
           mode (failedCycle t1 m1 r1 s) = Polling \<and>
           mode (failedCycle t2 m2 r2 (failedCycle t1 m1 r1 s)) = Polling \<and>
           mode (failedCycle t3 m3 r3 (failedCycle t2 m2 r2 (failedCycle t1 m1 r1 s))) = Offline \<and>
           isSimulated
             (store (failedCycle t3 m3 r3 (failedCycle t2 m2 r2 (failedCycle t1 m1 r1 s))))
             ''motor1'' \<and>
           isSimulated
             (store (failedCycle t3 m3 r3 (failedCycle t2 m2 r2 (failedCycle t1 m1 r1 s))))
             ''motor2'' \<and>
           recoveryTimers (failedCycle t3 m3 r3 (failedCycle t2 m2 r2 (failedCycle t1 m1 r1 s)))
             = recoveryTimers s @ [30000] \<and>
           mode (recoveryAttempt
             (failedCycle t3 m3 r3 (failedCycle t2 m2 r2 (failedCycle t1 m1 r1 s)))) = Polling \<and>
           pollingRetries (recoveryAttempt
             (failedCycle t3 m3 r3 (failedCycle t2 m2 r2 (failedCycle t1 m1 r1 s)))) = 0)) \<and>
     (\<forall>t rnd. mode (activateOfflineMode t rnd s) = Offline \<and>
        recoveryTimers (activateOfflineMode t rnd s) = recoveryTimers s @ [30000]) \<and>
     (mode s = Offline \<longrightarrow>
        mode (recoveryAttempt s) = Polling \<and> pollingRetries (recoveryAttempt s) = 0)"
proof (intro conjI allI impI)
  fix s' ev
  show "mode (rm_step s' ev) =
        (if isDocumentEvent ev \<and> listeners s' = 0 then mode s'
         else specModeTable (mode s') (signalOf s' ev))"
    by (rule mode_step_table)
next
  fix t1 m1 r1 t2 m2 r2 t3 m3 r3
  assume a: "mode s = Polling \<and> \<not> isPollingActive s \<and> pollingRetries s = 0"
  let ?s1 = "failedCycle t1 m1 r1 s"
  let ?s2 = "failedCycle t2 m2 r2 ?s1"
  let ?s3 = "failedCycle t3 m3 r3 ?s2"
  from a assms(1) have b0: "mode s = Polling" "\<not> isPollingActive s"
      "pollingRetries s + 1 < maxPollingRetries s"
    by simp_all
  note f1 = failedCycle_below [OF b0, of t1 m1 r1]
  from f1 a assms(1) have b1: "mode ?s1 = Polling" "\<not> isPollingActive ?s1"
      "pollingRetries ?s1 + 1 < maxPollingRetries ?s1"
    by simp_all
  note f2 = failedCycle_below [OF b1, of t2 m2 r2]
  from f1 f2 a assms(1) have b2: "mode ?s2 = Polling" "\<not> isPollingActive ?s2"
      "pollingRetries ?s2 + 1 \<ge> maxPollingRetries ?s2"
    by simp_all
  note f3 = failedCycle_exhausts [OF b2, of t3 m3 r3]
  from f1 f2 assms(2,3) have m: "motors (store ?s2) ''motor1'' \<noteq> None"
      "motors (store ?s2) ''motor2'' \<noteq> None"
    by simp_all
  show "mode ?s1 = Polling" by (rule f1(1))
  show "mode ?s2 = Polling" by (rule f2(1))
  show "mode ?s3 = Offline" by (rule f3(1))
  from f3(6) [OF m] show "isSimulated (store ?s3) ''motor1''" and "isSimulated (store ?s3) ''motor2''"
    by simp_all
  show "recoveryTimers ?s3 = recoveryTimers s @ [30000]"
    by (simp add: f3(5) f2(6) f1(6))
  from recoveryAttempt_offline [OF f3(1)]
  show "mode (recoveryAttempt ?s3) = Polling" and "pollingRetries (recoveryAttempt ?s3) = 0"
    by simp_all
next
  fix t rnd
  show "mode (activateOfflineMode t rnd s) = Offline" by simp
  show "recoveryTimers (activateOfflineMode t rnd s) = recoveryTimers s @ [30000]" by simp
next
  assume o: "mode s = Offline"
  from recoveryAttempt_offline [OF o]
  show "mode (recoveryAttempt s) = Polling" and "pollingRetries (recoveryAttempt s) = 0"
    by simp_all
qed

theorem C4_mode_transitions_witness:
  "mode (rm_step pollingState (WsMaxRetries 2000 noRandom)) = Offline \<and>
   mode (rm_step (rm_constructor store_constructor) (WsMaxRetries 2000 noRandom)) = ModeNone \<and>
   mode (failedCycle 5000 ''Failed to fetch'' noRandom pollingState) = Polling \<and>
   mode exhaustedState = Offline \<and>
   isSimulated (store exhaustedState) ''motor1'' \<and>
   isSimulated (store exhaustedState) ''motor2'' \<and>
   recoveryTimers exhaustedState = [30000] \<and>
   mode (recoveryAttempt exhaustedState) = Polling \<and>
   pollingRetries (recoveryAttempt exhaustedState) = 0"
proof -
  note c = C4_mode_transitions [OF pollingState_facts(1,7,8)]
  have l: "listeners pollingState = 1" "listeners (rm_constructor store_constructor) = 0"
      "mode (rm_constructor store_constructor) = ModeNone"
    by (simp_all add: pollingState_def on_websocket_disconnected_def resumePolling_def
          start_def rm_constructor_def)
  from c have t: "mode (rm_step pollingState (WsMaxRetries 2000 noRandom)) =
      (if isDocumentEvent (WsMaxRetries 2000 noRandom) \<and> listeners pollingState = 0
       then mode pollingState
       else specModeTable (mode pollingState) (signalOf pollingState (WsMaxRetries 2000 noRandom)))"
    by blast
  from c have u: "mode (rm_step (rm_constructor store_constructor) (WsMaxRetries 2000 noRandom)) =
      (if isDocumentEvent (WsMaxRetries 2000 noRandom) \<and>
          listeners (rm_constructor store_constructor) = 0
       then mode (rm_constructor store_constructor)
       else specModeTable (mode (rm_constructor store_constructor))
         (signalOf (rm_constructor store_constructor) (WsMaxRetries 2000 noRandom)))"
    by blast
  from c pollingState_facts(2,3,4)
  have f: "mode (failedCycle 5000 ''Failed to fetch'' noRandom pollingState) = Polling \<and>
     mode (failedCycle 10000 ''Failed to fetch'' noRandom
       (failedCycle 5000 ''Failed to fetch'' noRandom pollingState)) = Polling \<and>
     mode (failedCycle 15000 ''Failed to fetch'' noRandom
       (failedCycle 10000 ''Failed to fetch'' noRandom
         (failedCycle 5000 ''Failed to fetch'' noRandom pollingState))) = Offline \<and>
     isSimulated (store (failedCycle 15000 ''Failed to fetch'' noRandom
       (failedCycle 10000 ''Failed to fetch'' noRandom
         (failedCycle 5000 ''Failed to fetch'' noRandom pollingState)))) ''motor1'' \<and>
     isSimulated (store (failedCycle 15000 ''Failed to fetch'' noRandom
       (failedCycle 10000 ''Failed to fetch'' noRandom
         (failedCycle 5000 ''Failed to fetch'' noRandom pollingState)))) ''motor2'' \<and>
     recoveryTimers (failedCycle 15000 ''Failed to fetch'' noRandom
       (failedCycle 10000 ''Failed to fetch'' noRandom
         (failedCycle 5000 ''Failed to fetch'' noRandom pollingState)))
       = recoveryTimers pollingState @ [30000] \<and>
     mode (recoveryAttempt (failedCycle 15000 ''Failed to fetch'' noRandom
       (failedCycle 10000 ''Failed to fetch'' noRandom
         (failedCycle 5000 ''Failed to fetch'' noRandom pollingState)))) = Polling \<and>
     pollingRetries (recoveryAttempt (failedCycle 15000 ''Failed to fetch'' noRandom
       (failedCycle 10000 ''Failed to fetch'' noRandom
         (failedCycle 5000 ''Failed to fetch'' noRandom pollingState)))) = 0"
    by blast
  from t u f show ?thesis
    unfolding exhaustedState_def by (simp add: pollingState_facts l)
qed

text \<open>
  C4 as stated fails on two counts.  The pair of mode and event does not fix the
  resulting mode: in mode none the event \<^verbatim>\<open>websocket:disconnected\<close> leaves the mode of a
  monitor that was never started, which has no listener, and makes it polling for a
  monitor that was started and stopped.  And the recovery callback resets
  \<^verbatim>\<open>pollingRetries\<close> only: after three failed cycles and the recovery,
  \<^verbatim>\<open>connectionState.errors\<close> is 3.
\<close>

theorem C4_counterexample:
  "mode (rm_constructor store_constructor) = ModeNone \<and>
   mode stoppedState = ModeNone \<and>
   mode (rm_step (rm_constructor store_constructor) (WsDisconnected 1000)) = ModeNone \<and>
   mode (rm_step stoppedState (WsDisconnected 1000)) = Polling \<and>
   mode exhaustedState = Offline \<and>
   mode (rm_step exhaustedState RecoveryTimer) = Polling \<and>
   pollingRetries (rm_step exhaustedState RecoveryTimer) = 0 \<and>
   errors (rm_step exhaustedState RecoveryTimer) = 3"
proof -
  have a: "mode (rm_constructor store_constructor) = ModeNone"
      "mode (rm_step (rm_constructor store_constructor) (WsDisconnected 1000)) = ModeNone"
    by (simp_all add: rm_constructor_def dispatchToListeners_def)
  have b: "mode stoppedState = ModeNone"
      "mode (rm_step stoppedState (WsDisconnected 1000)) = Polling"
    by (simp_all add: stoppedState_def rm_constructor_def start_def stop_def
          dispatchToListeners_def on_websocket_disconnected_def resumePolling_def)
  from recoveryAttempt_offline [OF exhaustedState_facts(1)] a b show ?thesis
    by (simp add: exhaustedState_facts)
qed

text \<open>
  C9 (the code at the failing input).  The tick is guarded by the mode and the flag, and
  the flag is set when a cycle starts and cleared when it ends.  But \<^verbatim>\<open>resumePolling\<close>
  (and \<^verbatim>\<open>pausePolling\<close>, \<^verbatim>\<open>stop\<close>) clear the flag as well, whether or not a cycle is
  waiting for its answer.  In the run below the push transport is reported disconnected
  while the first cycle waits; the next tick finds the flag cleared and starts a second
  cycle: two invocations of \<^verbatim>\<open>executePollingCycle\<close> are under way at once.
\<close>

theorem C9_cycles_overlap:
  "map_option mode (rm_run (rm_constructor store_constructor) overlapTrace) = Some Polling \<and>
   map_option isPollingActive (rm_run (rm_constructor store_constructor) overlapTrace)
     = Some True \<and>
   map_option pollingAttempts (rm_run (rm_constructor store_constructor) overlapTrace) = Some 2 \<and>
   map_option inFlight (rm_run (rm_constructor store_constructor) overlapTrace) = Some 2"
  by (simp add: overlapTrace_def rm_constructor_def start_def on_websocket_disconnected_def
        resumePolling_def pollingTick_def executePollingCycle_def dispatchToListeners_def
        Let_def)

end
